theory Spec2Isabelle
  imports Main "HOL-Library.AList"
begin

section \<open>Errors and panics\<close>

text \<open>
  Go error values. \<open>ExtensionError s\<close> is an error returned by an extension's patch
  function (\<open>s\<close> its text); \<open>Errorf p e\<close> is \<^verbatim>\<open>fmt.Errorf(p + ": %w", e)\<close>, which wraps
  \<open>e\<close> and prints its text after the prefix; \<open>UnsupportedType t\<close> is
  \<^verbatim>\<open>fmt.Errorf("unsupported type was skipped: %T", resource)\<close> for a payload of Go type
  \<open>t\<close>; \<open>MultiError es\<close> is a \<^verbatim>\<open>*multierror.Error\<close> holding the errors \<open>es\<close>, whose text
  lists the text of every member. A nil error is \<open>None\<close> of \<open>error option\<close>.
\<close>

datatype error =
    ExtensionError string
  | Errorf string error
  | UnsupportedType string
  | MultiError "error list"

text \<open>
  \<^verbatim>\<open>multierror.Append(err, e)\<close> of the go-multierror library, for one appended non-nil
  error: the result is always a \<^verbatim>\<open>*multierror.Error\<close>; a nil \<open>err\<close> starts an empty one,
  a multierror \<open>err\<close> is extended, any other \<open>err\<close> becomes the first member; an appended
  multierror is flattened into its members.
\<close>

fun multierror_Errors :: "error \<Rightarrow> error list" where
  "multierror_Errors (MultiError es) = es"
| "multierror_Errors e = [e]"

fun multierror_Append :: "error option \<Rightarrow> error \<Rightarrow> error" where
  "multierror_Append None e = MultiError (multierror_Errors e)"
| "multierror_Append (Some (MultiError es)) e = MultiError (es @ multierror_Errors e)"
| "multierror_Append (Some err) e = MultiError (err # multierror_Errors e)"

text \<open>
  The run-time panics of the Go code that the modelled functions can reach: reading a
  field through a nil pointer, and assigning to an entry of a nil map.
\<close>

datatype panic = NilPointerDereference | NilMapAssignment

section \<open>Envoy resources\<close>

text \<open>
  The protobuf messages of go-control-plane, with the fields the extender reads and a
  further field or two so that two resources of one name can differ. A singular message
  field that may be absent (a nil pointer) is an \<open>option\<close>; a repeated field is a list (a
  nil slice and an empty one are both \<open>[]\<close>) whose elements are present messages.
\<close>

record Filter =
  Filter_Name :: string
  Filter_TypedConfig :: "string option"

record CidrRange =
  AddressPrefix :: string
  PrefixLen :: nat

record FilterChainMatch =
  ServerNames :: "string list"
  PrefixRanges :: "CidrRange list"

record FilterChain =
  FilterChainMatch :: "FilterChainMatch option"
  Filters :: "Filter list"

record Listener =
  Listener_Name :: string
  FilterChains :: "FilterChain list"

record Cluster =
  Cluster_Name :: string
  Cluster_AltStatName :: string

record ClusterWeight =
  ClusterWeight_Name :: string
  Weight :: nat

record WeightedCluster =
  Clusters :: "ClusterWeight list"

text \<open>The \<^verbatim>\<open>cluster_specifier\<close> oneof of a route action.\<close>

datatype ClusterSpecifier =
    RouteAction_Cluster string
  | RouteAction_ClusterHeader string
  | RouteAction_WeightedClusters WeightedCluster
  | RouteAction_ClusterSpecifierPlugin string

record RouteAction =
  ClusterSpecifier :: "ClusterSpecifier option"

text \<open>The \<^verbatim>\<open>action\<close> oneof of a route; only the \<^verbatim>\<open>route\<close> alternative carries clusters.\<close>

datatype Route_Action =
    Route_Route RouteAction
  | Route_Redirect
  | Route_DirectResponse
  | Route_FilterAction
  | Route_NonForwardingFilterAction

record Route =
  Route_Name :: string
  Action :: "Route_Action option"

record VirtualHost =
  VirtualHost_Name :: string
  Routes :: "Route list"

record RouteConfiguration =
  RouteConfiguration_Name :: string
  VirtualHosts :: "VirtualHost list"

text \<open>
  A \<^verbatim>\<open>proto.Message\<close> stored in the index, by its dynamic type: the three types that the
  type switch of \<open>Extend\<close> knows, and any other type (with its Go type name).
\<close>

datatype Message =
    MCluster Cluster
  | MListener Listener
  | MRoute RouteConfiguration
  | MOther string

section \<open>The indexed resource set\<close>

text \<open>
  \<^verbatim>\<open>xdscommon.IndexedResources.Index\<close> is a \<^verbatim>\<open>map[string]map[string]proto.Message\<close>. The outer
  map is a partial function on the type URL (a missing key is a nil inner map). An inner
  map is an association list: its order is the order in which \<^verbatim>\<open>range\<close> visits the
  entries, which Go leaves unspecified, so a statement for every list covers every order.
\<close>

record IndexedResources =
  Index :: "string \<rightharpoonup> (string \<times> Message) list"

text \<open>
  Modelled from the spec: the constants of package \<^verbatim>\<open>xdscommon\<close> and \<^verbatim>\<open>api\<close> are declared
  outside the source file. The spec names the three resource-kind tags (Listener, Route,
  Cluster), the local-service sentinel cluster, the well-known outbound-listener and
  public-listener names, and the kinds terminating-gateway and connect-proxy; the values
  are those of the repository. Only their being distinct matters below.
\<close>

definition ListenerType :: string where
  "ListenerType = ''type.googleapis.com/envoy.config.listener.v3.Listener''"

definition RouteType :: string where
  "RouteType = ''type.googleapis.com/envoy.config.route.v3.RouteConfiguration''"

definition ClusterType :: string where
  "ClusterType = ''type.googleapis.com/envoy.config.cluster.v3.Cluster''"

definition LocalAppClusterName :: string where
  "LocalAppClusterName = ''local_app''"

definition OutboundListenerName :: string where
  "OutboundListenerName = ''outbound_listener''"

definition PublicListenerName :: string where
  "PublicListenerName = ''public_listener''"

type_synonym ServiceKind = string

definition ServiceKindTerminatingGateway :: ServiceKind where
  "ServiceKindTerminatingGateway = ''terminating-gateway''"

definition ServiceKindConnectProxy :: ServiceKind where
  "ServiceKindConnectProxy = ''connect-proxy''"

text \<open>
  The entries that \<^verbatim>\<open>range resources.Index[indexType]\<close> visits: those of the inner map,
  none when the inner map is nil.
\<close>

definition indexEntries :: "IndexedResources \<Rightarrow> string \<Rightarrow> (string \<times> Message) list" where
  "indexEntries resources indexType =
     (case Index resources indexType of None \<Rightarrow> [] | Some m \<Rightarrow> m)"

text \<open>
  \<^verbatim>\<open>resources.Index[indexType][key] = msg\<close>: replaces the entry of an existing key, adds
  the entry otherwise, and panics when the inner map is nil.
\<close>

definition setIndex ::
  "IndexedResources \<Rightarrow> string \<Rightarrow> string \<Rightarrow> Message \<Rightarrow> panic + IndexedResources" where
  "setIndex resources indexType key msg =
     (case Index resources indexType of
        None \<Rightarrow> Inl NilMapAssignment
      | Some m \<Rightarrow> Inr (resources\<lparr>Index := (Index resources)(indexType \<mapsto> AList.update key msg m)\<rparr>))"

text \<open>
  The listener functions do not copy the listener: they assign the rewritten filters to
  \<^verbatim>\<open>filterChain.Filters\<close> through the pointers held by the index. The entry the listener
  was read from therefore holds the rewritten listener whatever the function returns.
  With values in place of pointers this is a write of the rewritten listener at the key
  and index it was read from (no two entries are taken to share one listener object).
\<close>

definition mutateInPlace ::
  "IndexedResources \<Rightarrow> string \<Rightarrow> string \<Rightarrow> Message \<Rightarrow> IndexedResources" where
  "mutateInPlace resources indexType key msg =
     resources\<lparr>Index := (Index resources)(indexType :=
        map_option (AList.update key msg) (Index resources indexType))\<rparr>"

section \<open>The runtime configuration\<close>

text \<open>
  Modelled from the spec: the type \<^verbatim>\<open>RuntimeConfig\<close>, its upstream record and its methods are
  declared outside the source file. The spec gives the configuration a service kind, a
  direction and, when upstream, a per-upstream record keyed by the service name that
  holds at least the transparent-proxy VIP, and three queries derived from it:
  \<open>IsUpstream\<close>, \<open>MatchesUpstreamServiceSNI\<close> and the discovery identifier (\<open>EnvoyID\<close> in the
  code). A configuration with no record for its service name is downstream-scoped,
  matches no SNI and has the empty identifier (the zero value of the record).
\<close>

record CompoundServiceName =
  Name :: string
  Namespace :: string
  Partition :: string

record UpstreamData =
  UpstreamData_SNI :: "string set"
  UpstreamData_EnvoyID :: string
  UpstreamData_VIP :: string

record RuntimeConfig =
  ServiceName :: CompoundServiceName
  Upstreams :: "CompoundServiceName \<rightharpoonup> UpstreamData"
  Kind :: ServiceKind

definition IsUpstream :: "RuntimeConfig \<Rightarrow> bool" where
  "IsUpstream config = (Upstreams config (ServiceName config) \<noteq> None)"

definition MatchesUpstreamServiceSNI :: "RuntimeConfig \<Rightarrow> string \<Rightarrow> bool" where
  "MatchesUpstreamServiceSNI config sni =
     (case Upstreams config (ServiceName config) of
        None \<Rightarrow> False
      | Some u \<Rightarrow> sni \<in> UpstreamData_SNI u)"

definition EnvoyID :: "RuntimeConfig \<Rightarrow> string" where
  "EnvoyID config =
     (case Upstreams config (ServiceName config) of
        None \<Rightarrow> []
      | Some u \<Rightarrow> UpstreamData_EnvoyID u)"

text \<open>
  \<^verbatim>\<open>config.Upstreams[config.ServiceName].VIP\<close>, read by \<open>patchTProxyListener\<close>. The function
  runs only for an upstream-scoped configuration, where the record exists; without a
  record the model takes the VIP of the zero value.
\<close>

definition upstreamVIP :: "RuntimeConfig \<Rightarrow> string" where
  "upstreamVIP config =
     (case Upstreams config (ServiceName config) of
        None \<Rightarrow> []
      | Some u \<Rightarrow> UpstreamData_VIP u)"

section \<open>The extension contract\<close>

text \<open>
  The interface \<open>BasicExtension\<close>. A patch function returns the new resource, whether it
  changed, and an error or nil. The functions are pure, as the contract requires.
\<close>

record Extension =
  CanApply :: "RuntimeConfig \<Rightarrow> bool"
  PatchRoute :: "RuntimeConfig \<Rightarrow> RouteConfiguration \<Rightarrow> RouteConfiguration \<times> bool \<times> error option"
  PatchCluster :: "RuntimeConfig \<Rightarrow> Cluster \<Rightarrow> Cluster \<times> bool \<times> error option"
  PatchFilter :: "RuntimeConfig \<Rightarrow> Filter \<Rightarrow> Filter \<times> bool \<times> error option"

text \<open>
  The calls an execution makes to the patch functions are recorded in order, so that
  "is offered to" and "is never invoked on" are statements about a run. In the trace of
  \<open>Extend\<close> a call is paired with the key (\<open>nameOrSNI\<close>) of the resource being processed.
\<close>

datatype call =
    PatchClusterCall Cluster
  | PatchRouteCall RouteConfiguration
  | PatchFilterCall Filter

section \<open>Resource reference helpers\<close>

text \<open>\<open>getSNI\<close>: the first declared server name of a filter chain, or the empty string.\<close>

definition getSNI :: "FilterChain option \<Rightarrow> string" where
  "getSNI chain =
     (case chain of
        None \<Rightarrow> []
      | Some c \<Rightarrow>
          (case FilterChainMatch c of
             None \<Rightarrow> []
           | Some m \<Rightarrow> (case ServerNames m of [] \<Rightarrow> [] | sni # _ \<Rightarrow> sni)))"

text \<open>
  \<open>filterChainTProxyMatch\<close> reads \<^verbatim>\<open>filterChain.FilterChainMatch.PrefixRanges\<close> by field
  access, not through the nil-safe getters: an absent match clause is a nil pointer
  dereference. \<open>prefixRangesMatch\<close> is its loop over the prefix ranges.
\<close>

fun prefixRangesMatch :: "string \<Rightarrow> CidrRange list \<Rightarrow> bool" where
  "prefixRangesMatch vip [] = False"
| "prefixRangesMatch vip (prefixRange # rest) =
     (if vip = AddressPrefix prefixRange then True else prefixRangesMatch vip rest)"

definition filterChainTProxyMatch :: "string \<Rightarrow> FilterChain \<Rightarrow> panic + bool" where
  "filterChainTProxyMatch vip filterChain =
     (case FilterChainMatch filterChain of
        None \<Rightarrow> Inl NilPointerDereference
      | Some m \<Rightarrow> Inr (prefixRangesMatch vip (PrefixRanges m)))"

text \<open>
  \<open>RouteClusterNames\<close>. The result is a Go \<^verbatim>\<open>map[string]struct{}\<close> used as a set; \<open>None\<close> is
  the nil map. \<open>GetRoute\<close>, \<open>GetCluster\<close> and \<open>GetWeightedClusters\<close> are the generated
  getters: nil or the empty string when another alternative of the oneof is set.
  \<open>virtualHostsNames\<close>, \<open>routesNames\<close> and \<open>weightedClusterNames\<close> are the three loops, each
  with the map built so far; \<open>routeNames\<close> is the body of the loop over the routes.
\<close>

definition GetRoute :: "Route \<Rightarrow> RouteAction option" where
  "GetRoute route = (case Action route of Some (Route_Route r) \<Rightarrow> Some r | _ \<Rightarrow> None)"

definition GetCluster :: "RouteAction \<Rightarrow> string" where
  "GetCluster r = (case ClusterSpecifier r of Some (RouteAction_Cluster c) \<Rightarrow> c | _ \<Rightarrow> [])"

definition GetWeightedClusters :: "RouteAction \<Rightarrow> WeightedCluster option" where
  "GetWeightedClusters r =
     (case ClusterSpecifier r of Some (RouteAction_WeightedClusters wc) \<Rightarrow> Some wc | _ \<Rightarrow> None)"

fun weightedClusterNames :: "ClusterWeight list \<Rightarrow> string set \<Rightarrow> string set" where
  "weightedClusterNames [] clusterNames = clusterNames"
| "weightedClusterNames (c # rest) clusterNames =
     weightedClusterNames rest
       (if ClusterWeight_Name c \<noteq> [] then insert (ClusterWeight_Name c) clusterNames
        else clusterNames)"

definition routeNames :: "Route \<Rightarrow> string set \<Rightarrow> string set" where
  "routeNames route clusterNames =
     (case GetRoute route of
        None \<Rightarrow> clusterNames
      | Some r \<Rightarrow>
          (let clusterNames1 =
                 (if GetCluster r \<noteq> [] then insert (GetCluster r) clusterNames
                  else clusterNames)
           in case GetWeightedClusters r of
                None \<Rightarrow> clusterNames1
              | Some wc \<Rightarrow> weightedClusterNames (Clusters wc) clusterNames1))"

fun routesNames :: "Route list \<Rightarrow> string set \<Rightarrow> string set" where
  "routesNames [] clusterNames = clusterNames"
| "routesNames (route # rest) clusterNames = routesNames rest (routeNames route clusterNames)"

fun virtualHostsNames :: "VirtualHost list \<Rightarrow> string set \<Rightarrow> string set" where
  "virtualHostsNames [] clusterNames = clusterNames"
| "virtualHostsNames (virtualHost # rest) clusterNames =
     virtualHostsNames rest (routesNames (Routes virtualHost) clusterNames)"

definition RouteClusterNames :: "RouteConfiguration option \<Rightarrow> string set option" where
  "RouteClusterNames route =
     (case route of
        None \<Rightarrow> None
      | Some rc \<Rightarrow> Some (virtualHostsNames (VirtualHosts rc) {}))"

section \<open>The listener sub-orchestrators\<close>

text \<open>
  The loop over \<^verbatim>\<open>filterChain.Filters\<close>, which the three listener functions repeat word for
  word. Its state is the slice \<open>filters\<close> built for the chain, the flag \<open>patched\<close> and the
  error \<open>resultErr\<close> of the enclosing function, and the calls made so far.
\<close>

fun patchFilters ::
  "Extension \<Rightarrow> RuntimeConfig \<Rightarrow> Filter list
     \<Rightarrow> Filter list \<times> bool \<times> error option \<times> call list
     \<Rightarrow> Filter list \<times> bool \<times> error option \<times> call list" where
  "patchFilters ext config [] s = s"
| "patchFilters ext config (flt # rest) (filters, patched, resultErr, calls) =
     (case PatchFilter ext config flt of
        (newFilter, ok, Some err) \<Rightarrow>
          patchFilters ext config rest
            (filters @ [flt], patched,
             Some (multierror_Append resultErr (Errorf ''error patching listener filter'' err)),
             calls @ [PatchFilterCall flt])
      | (newFilter, ok, None) \<Rightarrow>
          if ok then
            patchFilters ext config rest
              (filters @ [newFilter], True, resultErr, calls @ [PatchFilterCall flt])
          else
            patchFilters ext config rest
              (filters @ [flt], patched, resultErr, calls @ [PatchFilterCall flt]))"

text \<open>
  The loops over \<^verbatim>\<open>l.FilterChains\<close>. The state holds the chains already visited (rewritten
  in place or skipped), \<open>patched\<close>, \<open>resultErr\<close> and the calls made so far.
\<close>

fun terminatingGatewayChains ::
  "Extension \<Rightarrow> RuntimeConfig \<Rightarrow> FilterChain list
     \<Rightarrow> FilterChain list \<times> bool \<times> error option \<times> call list
     \<Rightarrow> FilterChain list \<times> bool \<times> error option \<times> call list" where
  "terminatingGatewayChains ext config [] s = s"
| "terminatingGatewayChains ext config (filterChain # rest) (visited, patched, resultErr, calls) =
     (let sni = getSNI (Some filterChain) in
      if sni = [] then
        terminatingGatewayChains ext config rest (visited @ [filterChain], patched, resultErr, calls)
      else if \<not> MatchesUpstreamServiceSNI config sni then
        terminatingGatewayChains ext config rest (visited @ [filterChain], patched, resultErr, calls)
      else
        (case patchFilters ext config (Filters filterChain) ([], patched, resultErr, calls) of
           (filters, patched', resultErr', calls') \<Rightarrow>
             terminatingGatewayChains ext config rest
               (visited @ [filterChain\<lparr>Filters := filters\<rparr>], patched', resultErr', calls')))"

definition patchTerminatingGatewayListener ::
  "Extension \<Rightarrow> RuntimeConfig \<Rightarrow> Listener \<Rightarrow> Listener \<times> bool \<times> error option \<times> call list" where
  "patchTerminatingGatewayListener ext config l =
     (if \<not> IsUpstream config then (l, False, None, [])
      else
        (case terminatingGatewayChains ext config (FilterChains l) ([], False, None, []) of
           (visited, patched, resultErr, calls) \<Rightarrow>
             (l\<lparr>FilterChains := visited\<rparr>, patched, resultErr, calls)))"

fun tproxyChains ::
  "Extension \<Rightarrow> RuntimeConfig \<Rightarrow> string \<Rightarrow> FilterChain list
     \<Rightarrow> FilterChain list \<times> bool \<times> error option \<times> call list
     \<Rightarrow> (panic + FilterChain list \<times> bool \<times> error option) \<times> call list" where
  "tproxyChains ext config vip [] (visited, patched, resultErr, calls) =
     (Inr (visited, patched, resultErr), calls)"
| "tproxyChains ext config vip (filterChain # rest) (visited, patched, resultErr, calls) =
     (case filterChainTProxyMatch vip filterChain of
        Inl p \<Rightarrow> (Inl p, calls)
      | Inr match \<Rightarrow>
          if \<not> match then
            tproxyChains ext config vip rest (visited @ [filterChain], patched, resultErr, calls)
          else
            (case patchFilters ext config (Filters filterChain) ([], patched, resultErr, calls) of
               (filters, patched', resultErr', calls') \<Rightarrow>
                 tproxyChains ext config vip rest
                   (visited @ [filterChain\<lparr>Filters := filters\<rparr>], patched', resultErr', calls')))"

definition patchTProxyListener ::
  "Extension \<Rightarrow> RuntimeConfig \<Rightarrow> Listener
     \<Rightarrow> (panic + Listener \<times> bool \<times> error option) \<times> call list" where
  "patchTProxyListener ext config l =
     (let vip = upstreamVIP config in
      case tproxyChains ext config vip (FilterChains l) ([], False, None, []) of
        (Inl p, calls) \<Rightarrow> (Inl p, calls)
      | (Inr (visited, patched, resultErr), calls) \<Rightarrow>
          (Inr (l\<lparr>FilterChains := visited\<rparr>, patched, resultErr), calls))"

fun connectProxyChains ::
  "Extension \<Rightarrow> RuntimeConfig \<Rightarrow> FilterChain list
     \<Rightarrow> FilterChain list \<times> bool \<times> error option \<times> call list
     \<Rightarrow> FilterChain list \<times> bool \<times> error option \<times> call list" where
  "connectProxyChains ext config [] s = s"
| "connectProxyChains ext config (filterChain # rest) (visited, patched, resultErr, calls) =
     (case patchFilters ext config (Filters filterChain) ([], patched, resultErr, calls) of
        (filters, patched', resultErr', calls') \<Rightarrow>
          connectProxyChains ext config rest
            (visited @ [filterChain\<lparr>Filters := filters\<rparr>], patched', resultErr', calls'))"

text \<open>\<^verbatim>\<open>strings.IndexByte\<close>: the index of the first occurrence of the byte, or -1.\<close>

definition IndexByte :: "string \<Rightarrow> char \<Rightarrow> int" where
  "IndexByte s c = (if c \<in> set s then int (length (takeWhile (\<lambda>x. x \<noteq> c) s)) else - 1)"

definition listenerEnvoyID :: "Listener \<Rightarrow> string" where
  "listenerEnvoyID l =
     (let i = IndexByte (Listener_Name l) (CHR '':'') in
      if i \<noteq> - 1 then take (nat i) (Listener_Name l) else [])"

definition patchConnectProxyListener ::
  "Extension \<Rightarrow> RuntimeConfig \<Rightarrow> Listener
     \<Rightarrow> (panic + Listener \<times> bool \<times> error option) \<times> call list" where
  "patchConnectProxyListener ext config l =
     (let envoyID = listenerEnvoyID l in
      if IsUpstream config \<and> envoyID = OutboundListenerName then patchTProxyListener ext config l
      else if IsUpstream config \<and> envoyID \<noteq> EnvoyID config then (Inr (l, False, None), [])
      else if \<not> IsUpstream config \<and> envoyID \<noteq> PublicListenerName then (Inr (l, False, None), [])
      else
        (case connectProxyChains ext config (FilterChains l) ([], False, None, []) of
           (visited, patched, resultErr, calls) \<Rightarrow>
             (Inr (l\<lparr>FilterChains := visited\<rparr>, patched, resultErr), calls)))"

definition patchListener ::
  "Extension \<Rightarrow> RuntimeConfig \<Rightarrow> Listener
     \<Rightarrow> (panic + Listener \<times> bool \<times> error option) \<times> call list" where
  "patchListener ext config l =
     (if Kind config = ServiceKindTerminatingGateway then
        (case patchTerminatingGatewayListener ext config l of
           (l', patched, resultErr, calls) \<Rightarrow> (Inr (l', patched, resultErr), calls))
      else if Kind config = ServiceKindConnectProxy then patchConnectProxyListener ext config l
      else (Inr (l, False, None), []))"

section \<open>The patch orchestrator\<close>

text \<open>
  The body of the inner loop of \<open>Extend\<close> for the entry \<open>(nameOrSNI, msg)\<close> of the inner map
  of \<open>indexType\<close>. The state is the resource set, \<open>resultErr\<close> and the trace; a panic ends
  the run and keeps the trace up to it.
\<close>

definition extendResource ::
  "Extension \<Rightarrow> RuntimeConfig \<Rightarrow> string \<Rightarrow> string \<times> Message
     \<Rightarrow> IndexedResources \<times> error option \<times> (string \<times> call) list
     \<Rightarrow> (panic + IndexedResources \<times> error option) \<times> (string \<times> call) list" where
  "extendResource ext config indexType entry s =
     (case (entry, s) of ((nameOrSNI, msg), (resources, resultErr, trace)) \<Rightarrow>
      (case msg of
         MCluster resource \<Rightarrow>
           if IsUpstream config \<and> \<not> MatchesUpstreamServiceSNI config nameOrSNI then
             (Inr (resources, resultErr), trace)
           else if \<not> IsUpstream config \<and> nameOrSNI = LocalAppClusterName then
             (Inr (resources, resultErr), trace)
           else
             (case PatchCluster ext config resource of
                (newCluster, patched, Some err) \<Rightarrow>
                  (Inr (resources,
                        Some (multierror_Append resultErr (Errorf ''error patching cluster'' err))),
                   trace @ [(nameOrSNI, PatchClusterCall resource)])
              | (newCluster, patched, None) \<Rightarrow>
                  if patched then
                    (case setIndex resources ClusterType nameOrSNI (MCluster newCluster) of
                       Inl p \<Rightarrow> (Inl p, trace @ [(nameOrSNI, PatchClusterCall resource)])
                     | Inr resources' \<Rightarrow>
                         (Inr (resources', resultErr),
                          trace @ [(nameOrSNI, PatchClusterCall resource)]))
                  else
                    (Inr (resources, resultErr),
                     trace @ [(nameOrSNI, PatchClusterCall resource)]))
       | MListener resource \<Rightarrow>
           (case patchListener ext config resource of
              (Inl p, calls) \<Rightarrow> (Inl p, trace @ map (Pair nameOrSNI) calls)
            | (Inr (newListener, patched, err), calls) \<Rightarrow>
                (let resources1 = mutateInPlace resources indexType nameOrSNI (MListener newListener);
                     trace1 = trace @ map (Pair nameOrSNI) calls
                 in case err of
                      Some e \<Rightarrow>
                        (Inr (resources1,
                              Some (multierror_Append resultErr (Errorf ''error patching listener'' e))),
                         trace1)
                    | None \<Rightarrow>
                        if patched then
                          (case setIndex resources1 ListenerType nameOrSNI (MListener newListener) of
                             Inl p \<Rightarrow> (Inl p, trace1)
                           | Inr resources' \<Rightarrow> (Inr (resources', resultErr), trace1))
                        else (Inr (resources1, resultErr), trace1)))
       | MRoute resource \<Rightarrow>
           (let matchesEnvoyID = (EnvoyID config = nameOrSNI) in
            if IsUpstream config \<and> \<not> MatchesUpstreamServiceSNI config nameOrSNI \<and> \<not> matchesEnvoyID then
              (Inr (resources, resultErr), trace)
            else if \<not> IsUpstream config then
              (Inr (resources, resultErr), trace)
            else
              (case PatchRoute ext config resource of
                 (newRoute, patched, Some err) \<Rightarrow>
                   (Inr (resources,
                         Some (multierror_Append resultErr (Errorf ''error patching route'' err))),
                    trace @ [(nameOrSNI, PatchRouteCall resource)])
               | (newRoute, patched, None) \<Rightarrow>
                   if patched then
                     (case setIndex resources RouteType nameOrSNI (MRoute newRoute) of
                        Inl p \<Rightarrow> (Inl p, trace @ [(nameOrSNI, PatchRouteCall resource)])
                      | Inr resources' \<Rightarrow>
                          (Inr (resources', resultErr),
                           trace @ [(nameOrSNI, PatchRouteCall resource)]))
                   else
                     (Inr (resources, resultErr),
                      trace @ [(nameOrSNI, PatchRouteCall resource)])))
       | MOther t \<Rightarrow>
           (Inr (resources, Some (multierror_Append resultErr (UnsupportedType t))), trace)))"

text \<open>
  The inner loop, over the entries of one inner map. While the map of \<open>indexType\<close> is
  ranged over, the body assigns in that map only at the key being visited, after its
  value was read, so the loop runs over the entries as they are when it starts.
\<close>

fun extendEntries ::
  "Extension \<Rightarrow> RuntimeConfig \<Rightarrow> string \<Rightarrow> (string \<times> Message) list
     \<Rightarrow> IndexedResources \<times> error option \<times> (string \<times> call) list
     \<Rightarrow> (panic + IndexedResources \<times> error option) \<times> (string \<times> call) list" where
  "extendEntries ext config indexType [] (resources, resultErr, trace) =
     (Inr (resources, resultErr), trace)"
| "extendEntries ext config indexType (entry # rest) s =
     (case extendResource ext config indexType entry s of
        (Inl p, trace') \<Rightarrow> (Inl p, trace')
      | (Inr (resources', resultErr'), trace') \<Rightarrow>
          extendEntries ext config indexType rest (resources', resultErr', trace'))"

text \<open>The outer loop, over the index types in their fixed order.\<close>

fun extendIndexTypes ::
  "Extension \<Rightarrow> RuntimeConfig \<Rightarrow> string list
     \<Rightarrow> IndexedResources \<times> error option \<times> (string \<times> call) list
     \<Rightarrow> (panic + IndexedResources \<times> error option) \<times> (string \<times> call) list" where
  "extendIndexTypes ext config [] (resources, resultErr, trace) =
     (Inr (resources, resultErr), trace)"
| "extendIndexTypes ext config (indexType # rest) (resources, resultErr, trace) =
     (case extendEntries ext config indexType (indexEntries resources indexType)
             (resources, resultErr, trace) of
        (Inl p, trace') \<Rightarrow> (Inl p, trace')
      | (Inr (resources', resultErr'), trace') \<Rightarrow>
          extendIndexTypes ext config rest (resources', resultErr', trace'))"

text \<open>
  \<open>Extend\<close>: the returned resource set and aggregate error (or the panic), and the trace
  of the patch calls made.
\<close>

definition Extend ::
  "Extension \<Rightarrow> IndexedResources \<Rightarrow> RuntimeConfig
     \<Rightarrow> (panic + IndexedResources \<times> error option) \<times> (string \<times> call) list" where
  "Extend ext resources config =
     (if Kind config \<noteq> ServiceKindTerminatingGateway \<and> Kind config \<noteq> ServiceKindConnectProxy then
        (Inr (resources, None), [])
      else if \<not> CanApply ext config then (Inr (resources, None), [])
      else
        extendIndexTypes ext config [ListenerType, RouteType, ClusterType] (resources, None, []))"

section \<open>Specification of the results\<close>

text \<open>
  The definitions of this section state what a run is expected to produce; the
  theorems below relate the functions of the source to them.
\<close>

subsection \<open>Cluster names\<close>

text \<open>
  The names a single route contributes: its cluster when that alternative of the oneof
  is set to a non-empty name, and the non-empty names of its weighted clusters.
\<close>

definition routeClusters :: "Route \<Rightarrow> string set" where
  "routeClusters rt =
     {n. n \<noteq> [] \<and> (\<exists>r. Action rt = Some (Route_Route r) \<and>
          (ClusterSpecifier r = Some (RouteAction_Cluster n) \<or>
           (\<exists>wc cw. ClusterSpecifier r = Some (RouteAction_WeightedClusters wc) \<and>
                     cw \<in> set (Clusters wc) \<and> ClusterWeight_Name cw = n)))}"

subsection \<open>Filters\<close>

text \<open>
  What the contract of a patch call asks of the orchestrator, for one filter: the
  returned filter replaces the original when the call reports a change and no error;
  the original stays otherwise. A call changed the filter when it reports a change and
  no error; its error, when it has one, is wrapped by the listener function.
\<close>

definition patchedFilter :: "Extension \<Rightarrow> RuntimeConfig \<Rightarrow> Filter \<Rightarrow> Filter" where
  "patchedFilter ext config flt =
     (case PatchFilter ext config flt of
        (newFilter, ok, None) \<Rightarrow> if ok then newFilter else flt
      | (newFilter, ok, Some err) \<Rightarrow> flt)"

definition filterChanged :: "Extension \<Rightarrow> RuntimeConfig \<Rightarrow> Filter \<Rightarrow> bool" where
  "filterChanged ext config flt =
     (case PatchFilter ext config flt of
        (newFilter, ok, None) \<Rightarrow> ok
      | (newFilter, ok, Some err) \<Rightarrow> False)"

definition filterErrors :: "Extension \<Rightarrow> RuntimeConfig \<Rightarrow> Filter \<Rightarrow> error list" where
  "filterErrors ext config flt =
     (case PatchFilter ext config flt of
        (newFilter, ok, None) \<Rightarrow> []
      | (newFilter, ok, Some err) \<Rightarrow> [Errorf ''error patching listener filter'' err])"

subsection \<open>Aggregate errors\<close>

text \<open>
  Appending a list of errors one by one, as the loops do; and the aggregate of a list of
  errors: nil for no error, the multierror of all of them otherwise.
\<close>

fun appendErrors :: "error option \<Rightarrow> error list \<Rightarrow> error option" where
  "appendErrors resultErr [] = resultErr"
| "appendErrors resultErr (e # es) = appendErrors (Some (multierror_Append resultErr e)) es"

definition aggregate :: "error list \<Rightarrow> error option" where
  "aggregate es = (if es = [] then None else Some (MultiError es))"

text \<open>
  \<open>errorMentions a e\<close>: the error \<open>e\<close> is \<open>a\<close> itself, or is wrapped by \<open>a\<close>, or is (wrapped
  by) a member of the multierror \<open>a\<close>. The text of a wrapping error ends with the text of
  the wrapped one and the text of a multierror lists the text of every member, so the
  text of \<open>a\<close> then contains the text of \<open>e\<close>.
\<close>

fun errorMentions :: "error \<Rightarrow> error \<Rightarrow> bool" where
  "errorMentions (ExtensionError s) e = (e = ExtensionError s)"
| "errorMentions (Errorf p x) e = (e = Errorf p x \<or> errorMentions x e)"
| "errorMentions (UnsupportedType t) e = (e = UnsupportedType t)"
| "errorMentions (MultiError xs) e = (e = MultiError xs \<or> (\<exists>x\<in>set xs. errorMentions x e))"

text \<open>The error a recorded call returns (the patch functions are pure).\<close>

definition callError :: "Extension \<Rightarrow> RuntimeConfig \<Rightarrow> call \<Rightarrow> error option" where
  "callError ext config c =
     (case c of
        PatchClusterCall x \<Rightarrow> snd (snd (PatchCluster ext config x))
      | PatchRouteCall x \<Rightarrow> snd (snd (PatchRoute ext config x))
      | PatchFilterCall x \<Rightarrow> snd (snd (PatchFilter ext config x)))"

subsection \<open>Candidate filter chains\<close>

text \<open>
  The filter chains of a listener whose filters are rewritten, given which chains are
  candidates, and the filters offered to \<open>PatchFilter\<close>, in order.
\<close>

definition rewriteChains ::
  "Extension \<Rightarrow> RuntimeConfig \<Rightarrow> (FilterChain \<Rightarrow> bool) \<Rightarrow> FilterChain list \<Rightarrow> FilterChain list" where
  "rewriteChains ext config cand fcs =
     map (\<lambda>fc. if cand fc then fc\<lparr>Filters := map (patchedFilter ext config) (Filters fc)\<rparr> else fc) fcs"

definition offeredFilters :: "(FilterChain \<Rightarrow> bool) \<Rightarrow> FilterChain list \<Rightarrow> Filter list" where
  "offeredFilters cand fcs = concat (map Filters (filter cand fcs))"

text \<open>
  The matching predicates of the spec. Terminating gateway: the chain declares a
  server name, the first one is not empty and it matches the upstream's SNI.
  Transparent proxy: a prefix range of the chain's match clause has the VIP, as a
  string, as its address prefix.
\<close>

definition serverNameCandidate :: "RuntimeConfig \<Rightarrow> FilterChain \<Rightarrow> bool" where
  "serverNameCandidate config fc =
     (case FilterChainMatch fc of
        None \<Rightarrow> False
      | Some m \<Rightarrow>
          (case ServerNames m of
             [] \<Rightarrow> False
           | sni # _ \<Rightarrow> sni \<noteq> [] \<and> MatchesUpstreamServiceSNI config sni))"

definition vipCandidate :: "string \<Rightarrow> FilterChain \<Rightarrow> bool" where
  "vipCandidate vip fc =
     (case FilterChainMatch fc of
        None \<Rightarrow> False
      | Some m \<Rightarrow> (\<exists>p\<in>set (PrefixRanges m). AddressPrefix p = vip))"

text \<open>
  The candidate chains of a listener by service kind, direction and listener name, as
  section 4.2 of the spec lists them.
\<close>

definition chainCandidate :: "RuntimeConfig \<Rightarrow> Listener \<Rightarrow> FilterChain \<Rightarrow> bool" where
  "chainCandidate config l fc =
     (if Kind config = ServiceKindTerminatingGateway then
        IsUpstream config \<and> serverNameCandidate config fc
      else if Kind config = ServiceKindConnectProxy then
        (if IsUpstream config then
           (if listenerEnvoyID l = OutboundListenerName then vipCandidate (upstreamVIP config) fc
            else listenerEnvoyID l = EnvoyID config)
         else listenerEnvoyID l = PublicListenerName)
      else False)"

definition listenerOffered :: "RuntimeConfig \<Rightarrow> Listener \<Rightarrow> Filter list" where
  "listenerOffered config l = offeredFilters (chainCandidate config l) (FilterChains l)"

definition patchedListener :: "Extension \<Rightarrow> RuntimeConfig \<Rightarrow> Listener \<Rightarrow> Listener" where
  "patchedListener ext config l =
     l\<lparr>FilterChains := rewriteChains ext config (chainCandidate config l) (FilterChains l)\<rparr>"

text \<open>
  A listener that takes the transparent-proxy path is processed without a panic when
  each of its filter chains has a match clause.
\<close>

definition matchClausesPresent :: "RuntimeConfig \<Rightarrow> Listener \<Rightarrow> bool" where
  "matchClausesPresent config l =
     (if Kind config = ServiceKindConnectProxy \<and> Kind config \<noteq> ServiceKindTerminatingGateway
         \<and> IsUpstream config \<and> listenerEnvoyID l = OutboundListenerName
      then list_all (\<lambda>fc. FilterChainMatch fc \<noteq> None) (FilterChains l) else True)"

subsection \<open>Resources\<close>

text \<open>
  The cluster and route matching predicates as the code evaluates them on the key of
  the resource.
\<close>

definition clusterOffered :: "RuntimeConfig \<Rightarrow> string \<Rightarrow> bool" where
  "clusterOffered config nameOrSNI =
     (if IsUpstream config then MatchesUpstreamServiceSNI config nameOrSNI
      else nameOrSNI \<noteq> LocalAppClusterName)"

definition routeOffered :: "RuntimeConfig \<Rightarrow> string \<Rightarrow> bool" where
  "routeOffered config nameOrSNI =
     (IsUpstream config \<and>
      (MatchesUpstreamServiceSNI config nameOrSNI \<or> EnvoyID config = nameOrSNI))"

definition callAllowed :: "RuntimeConfig \<Rightarrow> string \<times> call \<Rightarrow> bool" where
  "callAllowed config kc =
     (case snd kc of
        PatchClusterCall c \<Rightarrow> clusterOffered config (fst kc)
      | PatchRouteCall r \<Rightarrow> routeOffered config (fst kc)
      | PatchFilterCall f \<Rightarrow> True)"

text \<open>
  For one entry of the index: the payload the entry holds after the run, the errors
  recorded for it, and the calls made for it.
\<close>

definition entryResult :: "Extension \<Rightarrow> RuntimeConfig \<Rightarrow> string \<times> Message \<Rightarrow> Message" where
  "entryResult ext config entry =
     (case entry of (nameOrSNI, msg) \<Rightarrow>
      (case msg of
         MCluster c \<Rightarrow>
           if clusterOffered config nameOrSNI then
             (case PatchCluster ext config c of
                (newCluster, patched, None) \<Rightarrow> if patched then MCluster newCluster else MCluster c
              | (newCluster, patched, Some err) \<Rightarrow> MCluster c)
           else MCluster c
       | MListener l \<Rightarrow> MListener (patchedListener ext config l)
       | MRoute r \<Rightarrow>
           if routeOffered config nameOrSNI then
             (case PatchRoute ext config r of
                (newRoute, patched, None) \<Rightarrow> if patched then MRoute newRoute else MRoute r
              | (newRoute, patched, Some err) \<Rightarrow> MRoute r)
           else MRoute r
       | MOther t \<Rightarrow> MOther t))"

definition entryErrors :: "Extension \<Rightarrow> RuntimeConfig \<Rightarrow> string \<times> Message \<Rightarrow> error list" where
  "entryErrors ext config entry =
     (case entry of (nameOrSNI, msg) \<Rightarrow>
      (case msg of
         MCluster c \<Rightarrow>
           if clusterOffered config nameOrSNI then
             (case PatchCluster ext config c of
                (newCluster, patched, None) \<Rightarrow> []
              | (newCluster, patched, Some err) \<Rightarrow> [Errorf ''error patching cluster'' err])
           else []
       | MListener l \<Rightarrow>
           (case aggregate (concat (map (filterErrors ext config) (listenerOffered config l))) of
              None \<Rightarrow> []
            | Some err \<Rightarrow> [Errorf ''error patching listener'' err])
       | MRoute r \<Rightarrow>
           if routeOffered config nameOrSNI then
             (case PatchRoute ext config r of
                (newRoute, patched, None) \<Rightarrow> []
              | (newRoute, patched, Some err) \<Rightarrow> [Errorf ''error patching route'' err])
           else []
       | MOther t \<Rightarrow> [UnsupportedType t]))"

definition entryCalls :: "RuntimeConfig \<Rightarrow> string \<times> Message \<Rightarrow> (string \<times> call) list" where
  "entryCalls config entry =
     (case entry of (nameOrSNI, msg) \<Rightarrow>
      (case msg of
         MCluster c \<Rightarrow> if clusterOffered config nameOrSNI then [(nameOrSNI, PatchClusterCall c)] else []
       | MListener l \<Rightarrow> map (\<lambda>f. (nameOrSNI, PatchFilterCall f)) (listenerOffered config l)
       | MRoute r \<Rightarrow> if routeOffered config nameOrSNI then [(nameOrSNI, PatchRouteCall r)] else []
       | MOther t \<Rightarrow> []))"

text \<open>
  The invariants of the data model that the statements about a whole run assume. The
  kind tag of an entry agrees with the type of its payload (a payload of no known type
  may sit under any tag); the keys of an inner map are distinct, as those of a Go map
  are; and the listeners that take the transparent-proxy path have their match clauses.
\<close>

definition tagOk :: "string \<Rightarrow> Message \<Rightarrow> bool" where
  "tagOk indexType msg =
     (case msg of
        MCluster c \<Rightarrow> indexType = ClusterType
      | MListener l \<Rightarrow> indexType = ListenerType
      | MRoute r \<Rightarrow> indexType = RouteType
      | MOther t \<Rightarrow> True)"

definition entrySafe :: "RuntimeConfig \<Rightarrow> Message \<Rightarrow> bool" where
  "entrySafe config msg =
     (case msg of MListener l \<Rightarrow> matchClausesPresent config l | _ \<Rightarrow> True)"

definition indexOk :: "RuntimeConfig \<Rightarrow> string \<Rightarrow> (string \<times> Message) list \<Rightarrow> bool" where
  "indexOk config indexType m =
     (distinct (map fst m) \<and> list_all (\<lambda>e. tagOk indexType (snd e) \<and> entrySafe config (snd e)) m)"

definition wellFormed :: "RuntimeConfig \<Rightarrow> IndexedResources \<Rightarrow> bool" where
  "wellFormed config resources =
     (indexOk config ListenerType (indexEntries resources ListenerType)
      \<and> indexOk config RouteType (indexEntries resources RouteType)
      \<and> indexOk config ClusterType (indexEntries resources ClusterType))"

text \<open>
  The resource set after the run, and the entries of the three inner maps in the order
  in which the run visits them.
\<close>

definition extendedEntries ::
  "Extension \<Rightarrow> RuntimeConfig \<Rightarrow> (string \<times> Message) list \<Rightarrow> (string \<times> Message) list" where
  "extendedEntries ext config m = map (\<lambda>e. (fst e, entryResult ext config e)) m"

definition extendedResources :: "Extension \<Rightarrow> RuntimeConfig \<Rightarrow> IndexedResources \<Rightarrow> IndexedResources" where
  "extendedResources ext config resources =
     resources\<lparr>Index := (Index resources)
       (ListenerType := map_option (extendedEntries ext config) (Index resources ListenerType),
        RouteType := map_option (extendedEntries ext config) (Index resources RouteType),
        ClusterType := map_option (extendedEntries ext config) (Index resources ClusterType))\<rparr>"

definition allEntries :: "IndexedResources \<Rightarrow> (string \<times> Message) list" where
  "allEntries resources =
     indexEntries resources ListenerType @ indexEntries resources RouteType
       @ indexEntries resources ClusterType"

section \<open>Sample inputs\<close>

text \<open>
  Concrete inputs on which the statements below are evaluated: a service \<open>db\<close>, an
  upstream-scoped and a downstream-scoped configuration for it, and an extension that
  rejects every resource named or tagged \<open>bad\<close> and marks every other one.
\<close>

definition sampleService :: CompoundServiceName where
  "sampleService = \<lparr>Name = ''db'', Namespace = ''default'', Partition = ''default''\<rparr>"

definition sampleUpstream :: UpstreamData where
  "sampleUpstream =
     \<lparr>UpstreamData_SNI = {''db.default.dc1.internal'', ''db.default.dc2.internal''},
      UpstreamData_EnvoyID = ''db'',
      UpstreamData_VIP = ''10.0.0.5''\<rparr>"

definition upstreamConfig :: "ServiceKind \<Rightarrow> RuntimeConfig" where
  "upstreamConfig kind =
     \<lparr>ServiceName = sampleService, Upstreams = [sampleService \<mapsto> sampleUpstream], Kind = kind\<rparr>"

definition downstreamConfig :: "ServiceKind \<Rightarrow> RuntimeConfig" where
  "downstreamConfig kind =
     \<lparr>ServiceName = sampleService, Upstreams = Map.empty, Kind = kind\<rparr>"

definition sampleExtension :: Extension where
  "sampleExtension =
     \<lparr>CanApply = (\<lambda>config. True),
      PatchRoute = (\<lambda>config r.
        if RouteConfiguration_Name r = ''bad'' then (r, False, Some (ExtensionError ''route rejected''))
        else (r\<lparr>VirtualHosts := VirtualHosts r @ [\<lparr>VirtualHost_Name = ''ext'', Routes = []\<rparr>]\<rparr>,
              True, None)),
      PatchCluster = (\<lambda>config c.
        if Cluster_AltStatName c = ''bad'' then (c, False, Some (ExtensionError ''cluster rejected''))
        else (c\<lparr>Cluster_AltStatName := ''patched''\<rparr>, True, None)),
      PatchFilter = (\<lambda>config f.
        if Filter_Name f = ''bad'' then (f, False, Some (ExtensionError ''filter rejected''))
        else (f\<lparr>Filter_TypedConfig := Some ''patched''\<rparr>, True, None))\<rparr>"

definition sampleFilter :: "string \<Rightarrow> Filter" where
  "sampleFilter n = \<lparr>Filter_Name = n, Filter_TypedConfig = None\<rparr>"

definition sampleCluster :: "string \<Rightarrow> string \<Rightarrow> Cluster" where
  "sampleCluster n a = \<lparr>Cluster_Name = n, Cluster_AltStatName = a\<rparr>"

definition sampleResources ::
  "(string \<times> Message) list \<Rightarrow> (string \<times> Message) list \<Rightarrow> (string \<times> Message) list
     \<Rightarrow> IndexedResources" where
  "sampleResources listeners routes clusters =
     \<lparr>Index = [ListenerType \<mapsto> listeners, RouteType \<mapsto> routes, ClusterType \<mapsto> clusters]\<rparr>"

text \<open>A resource set with the route of the upstream \<open>db\<close> and another route.\<close>

definition sampleRoute :: "string \<Rightarrow> RouteConfiguration" where
  "sampleRoute n = \<lparr>RouteConfiguration_Name = n, VirtualHosts = []\<rparr>"

definition routeResources :: IndexedResources where
  "routeResources =
     sampleResources []
       [(''db'', MRoute (sampleRoute ''db'')), (''web'', MRoute (sampleRoute ''web''))] []"

text \<open>An extension that declines every configuration.\<close>

definition decliningExtension :: Extension where
  "decliningExtension = sampleExtension\<lparr>CanApply := (\<lambda>config. False)\<rparr>"

text \<open>
  The route table of the spec's example: one virtual host with a route to the cluster
  \<open>db.default\<close> and a route with the weighted clusters \<open>a\<close> and \<open>b\<close>; and a table whose
  only virtual host has no route.
\<close>

definition exampleRouteTable :: RouteConfiguration where
  "exampleRouteTable =
     \<lparr>RouteConfiguration_Name = ''db'',
      VirtualHosts =
        [\<lparr>VirtualHost_Name = ''db'',
          Routes =
            [\<lparr>Route_Name = ''single'',
              Action = Some (Route_Route
                \<lparr>ClusterSpecifier = Some (RouteAction_Cluster ''db.default'')\<rparr>)\<rparr>,
             \<lparr>Route_Name = ''weighted'',
              Action = Some (Route_Route
                \<lparr>ClusterSpecifier = Some (RouteAction_WeightedClusters
                  \<lparr>Clusters = [\<lparr>ClusterWeight_Name = ''a'', Weight = 50\<rparr>,
                               \<lparr>ClusterWeight_Name = ''b'', Weight = 50\<rparr>]\<rparr>)\<rparr>)\<rparr>]\<rparr>]\<rparr>"

definition routelessTable :: RouteConfiguration where
  "routelessTable =
     \<lparr>RouteConfiguration_Name = ''empty'',
      VirtualHosts = [\<lparr>VirtualHost_Name = ''empty'', Routes = []\<rparr>]\<rparr>"

text \<open>
  A transparent-proxy outbound listener whose only filter chain has no match clause, and
  the resource set that holds it.
\<close>

definition unmatchedChain :: FilterChain where
  "unmatchedChain = \<lparr>FilterChainMatch = None, Filters = [sampleFilter ''tcp'']\<rparr>"

definition outboundListener :: Listener where
  "outboundListener =
     \<lparr>Listener_Name = ''outbound_listener:127.0.0.1:15001'', FilterChains = [unmatchedChain]\<rparr>"

definition outboundResources :: IndexedResources where
  "outboundResources =
     sampleResources [(''outbound_listener:127.0.0.1:15001'', MListener outboundListener)] [] []"

text \<open>
  A resource set with the local-service cluster and the cluster of the upstream \<open>db\<close>.
\<close>

definition localAndUpstreamClusters :: IndexedResources where
  "localAndUpstreamClusters =
     sampleResources [] []
       [(''local_app'', MCluster (sampleCluster ''local_app'' [])),
        (''db.default.dc1.internal'', MCluster (sampleCluster ''db.default.dc1.internal'' []))]"

text \<open>
  An extension whose \<open>PatchFilter\<close> reports a change together with an error.
\<close>

definition faultyExtension :: Extension where
  "faultyExtension =
     sampleExtension\<lparr>PatchFilter := (\<lambda>config f.
        (f\<lparr>Filter_TypedConfig := Some ''patched''\<rparr>, True, Some (ExtensionError ''failed after change'')))\<rparr>"

text \<open>
  The terminating-gateway listener of the spec's scenario: a filter chain for the SNI
  of the upstream \<open>db\<close> and a filter chain for another SNI.
\<close>

definition serverNameChain :: "string \<Rightarrow> Filter list \<Rightarrow> FilterChain" where
  "serverNameChain sni fs =
     \<lparr>FilterChainMatch = Some \<lparr>ServerNames = [sni], PrefixRanges = []\<rparr>, Filters = fs\<rparr>"

definition gatewayListener :: Listener where
  "gatewayListener =
     \<lparr>Listener_Name = ''terminating_gateway:127.0.0.1:8443'',
      FilterChains =
        [serverNameChain ''db.default.dc1.internal'' [sampleFilter ''tcp''],
         serverNameChain ''web.default.dc1.internal'' [sampleFilter ''http'']]\<rparr>"

text \<open>
  A terminating-gateway configuration whose upstream has the empty string among its
  SNIs, and a listener whose filter chain declares the empty string as server name.
\<close>

definition emptyNameConfig :: RuntimeConfig where
  "emptyNameConfig =
     \<lparr>ServiceName = sampleService,
      Upstreams = [sampleService \<mapsto> sampleUpstream\<lparr>UpstreamData_SNI := {[]}\<rparr>],
      Kind = ServiceKindTerminatingGateway\<rparr>"

definition emptyNameListener :: Listener where
  "emptyNameListener =
     \<lparr>Listener_Name = ''terminating_gateway:127.0.0.1:8443'',
      FilterChains = [serverNameChain [] [sampleFilter ''tcp'']]\<rparr>"

text \<open>
  A resource set with the local-service cluster and two clusters of the upstream \<open>db\<close>.
\<close>

definition clusterResources :: IndexedResources where
  "clusterResources =
     sampleResources [] []
       [(''local_app'', MCluster (sampleCluster ''local_app'' [])),
        (''db.default.dc1.internal'', MCluster (sampleCluster ''db.default.dc1.internal'' ''bad'')),
        (''db.default.dc2.internal'', MCluster (sampleCluster ''db.default.dc2.internal'' []))]"

text \<open>
  A connect-proxy listener of the upstream \<open>db\<close> with a filter that the sample extension
  rejects and one that it patches; a resource set with that listener, a route and a
  cluster that are patched, a route and a cluster that are rejected, and a payload of
  an unsupported type; and a resource set on which no patch call fails.
\<close>

definition upstreamListener :: Listener where
  "upstreamListener =
     \<lparr>Listener_Name = ''db:127.0.0.1:9191'',
      FilterChains = [\<lparr>FilterChainMatch = None,
                       Filters = [sampleFilter ''bad'', sampleFilter ''tcp'']\<rparr>]\<rparr>"

definition mixedResources :: IndexedResources where
  "mixedResources =
     sampleResources
       [(''db:127.0.0.1:9191'', MListener upstreamListener)]
       [(''db'', MRoute (sampleRoute ''db'')),
        (''db.default.dc2.internal'', MRoute (sampleRoute ''bad''))]
       [(''db.default.dc1.internal'', MCluster (sampleCluster ''db.default.dc1.internal'' ''bad'')),
        (''db.default.dc2.internal'', MCluster (sampleCluster ''db.default.dc2.internal'' [])),
        (''stray'', MOther ''*envoy_endpoint_v3.ClusterLoadAssignment'')]"

definition cleanResources :: IndexedResources where
  "cleanResources =
     sampleResources
       [(''db:127.0.0.1:9191'', MListener (upstreamListener\<lparr>FilterChains :=
           [\<lparr>FilterChainMatch = None, Filters = [sampleFilter ''tcp'']\<rparr>]\<rparr>))]
       [(''db'', MRoute (sampleRoute ''db''))]
       [(''db.default.dc2.internal'', MCluster (sampleCluster ''db.default.dc2.internal'' []))]"

text \<open>
  A transparent-proxy outbound listener with a chain for the prefix \<open>10.0.0.5/32\<close>, a
  chain for the VIP \<open>10.0.0.5\<close> of the upstream \<open>db\<close> and a chain for another address, and
  the resource set that holds it.
\<close>

definition vipChain :: "string \<Rightarrow> Filter list \<Rightarrow> FilterChain" where
  "vipChain prefix fs =
     \<lparr>FilterChainMatch = Some \<lparr>ServerNames = [],
        PrefixRanges = [\<lparr>AddressPrefix = prefix, PrefixLen = 32\<rparr>]\<rparr>,
      Filters = fs\<rparr>"

definition tproxyListener :: Listener where
  "tproxyListener =
     \<lparr>Listener_Name = ''outbound_listener:127.0.0.1:15001'',
      FilterChains =
        [vipChain ''10.0.0.5/32'' [sampleFilter ''prefix''],
         vipChain ''10.0.0.5'' [sampleFilter ''tcp''],
         vipChain ''10.0.0.6'' [sampleFilter ''other'']]\<rparr>"

definition tproxyResources :: IndexedResources where
  "tproxyResources =
     sampleResources [(''outbound_listener:127.0.0.1:15001'', MListener tproxyListener)] [] []"

text \<open>
  A resource set whose listener index holds the listener with a rejected filter and then
  the outbound listener with a chain without match clause, followed by a route and a
  cluster of the upstream \<open>db\<close>.
\<close>

definition abortResources :: IndexedResources where
  "abortResources =
     sampleResources
       [(''db:127.0.0.1:9191'', MListener upstreamListener),
        (''outbound_listener:127.0.0.1:15001'', MListener outboundListener)]
       [(''db'', MRoute (sampleRoute ''db''))]
       [(''db.default.dc2.internal'', MCluster (sampleCluster ''db.default.dc2.internal'' []))]"

section \<open>Cluster names of a route table\<close>

lemma weightedClusterNames_eq:
  "weightedClusterNames cs acc = acc \<union> {n. n \<noteq> [] \<and> (\<exists>cw\<in>set cs. ClusterWeight_Name cw = n)}"
  by (induction cs arbitrary: acc) auto

lemma routeNames_eq: "routeNames rt acc = acc \<union> routeClusters rt"
  unfolding routeNames_def routeClusters_def GetRoute_def GetCluster_def GetWeightedClusters_def
  by (auto simp: weightedClusterNames_eq Let_def
      split: option.splits Route_Action.splits ClusterSpecifier.splits)

lemma routesNames_eq: "routesNames rts acc = acc \<union> (\<Union>rt\<in>set rts. routeClusters rt)"
  by (induction rts arbitrary: acc) (auto simp: routeNames_eq)

lemma virtualHostsNames_eq:
  "virtualHostsNames vhs acc = acc \<union> (\<Union>vh\<in>set vhs. \<Union>rt\<in>set (Routes vh). routeClusters rt)"
  by (induction vhs arbitrary: acc) (auto simp: routesNames_eq)

text \<open>
  C10. \<open>RouteClusterNames\<close> of a nil route table is nil. Of a table that is present it is
  the set of the non-empty names that are the single cluster of some route of some
  virtual host, or a member of its weighted clusters; it is the empty set when no virtual
  host has a route.
\<close>

theorem RouteClusterNames_set:
  "RouteClusterNames None = None
   \<and> RouteClusterNames (Some rc) =
       Some {n. n \<noteq> [] \<and> (\<exists>vh\<in>set (VirtualHosts rc). \<exists>rt\<in>set (Routes vh). \<exists>r.
               Action rt = Some (Route_Route r) \<and>
               (ClusterSpecifier r = Some (RouteAction_Cluster n) \<or>
                (\<exists>wc cw. ClusterSpecifier r = Some (RouteAction_WeightedClusters wc) \<and>
                          cw \<in> set (Clusters wc) \<and> ClusterWeight_Name cw = n)))}
   \<and> ((\<forall>vh\<in>set (VirtualHosts rc). Routes vh = []) \<longrightarrow> RouteClusterNames (Some rc) = Some {})"
proof -
  have "(\<Union>vh\<in>set (VirtualHosts rc). \<Union>rt\<in>set (Routes vh). routeClusters rt) =
       {n. n \<noteq> [] \<and> (\<exists>vh\<in>set (VirtualHosts rc). \<exists>rt\<in>set (Routes vh). \<exists>r.
               Action rt = Some (Route_Route r) \<and>
               (ClusterSpecifier r = Some (RouteAction_Cluster n) \<or>
                (\<exists>wc cw. ClusterSpecifier r = Some (RouteAction_WeightedClusters wc) \<and>
                          cw \<in> set (Clusters wc) \<and> ClusterWeight_Name cw = n)))}"
    unfolding routeClusters_def by blast
  then show ?thesis
    unfolding RouteClusterNames_def by (simp add: virtualHostsNames_eq)
qed

text \<open>
  The spec's example yields \<open>{db.default, a, b}\<close>, and the table without routes the empty
  set.
\<close>

theorem RouteClusterNames_set_witness:
  "RouteClusterNames (Some exampleRouteTable) = Some {''db.default'', ''a'', ''b''}
   \<and> {n. n \<noteq> [] \<and> (\<exists>vh\<in>set (VirtualHosts exampleRouteTable). \<exists>rt\<in>set (Routes vh). \<exists>r.
               Action rt = Some (Route_Route r) \<and>
               (ClusterSpecifier r = Some (RouteAction_Cluster n) \<or>
                (\<exists>wc cw. ClusterSpecifier r = Some (RouteAction_WeightedClusters wc) \<and>
                          cw \<in> set (Clusters wc) \<and> ClusterWeight_Name cw = n)))}
       = {''db.default'', ''a'', ''b''}
   \<and> VirtualHosts routelessTable = [\<lparr>VirtualHost_Name = ''empty'', Routes = []\<rparr>]
   \<and> RouteClusterNames (Some routelessTable) = Some {}"
proof -
  have ex: "RouteClusterNames (Some exampleRouteTable) = Some {''db.default'', ''a'', ''b''}"
    by (simp add: RouteClusterNames_def exampleRouteTable_def routeNames_def GetRoute_def
        GetCluster_def GetWeightedClusters_def insert_commute)
  have vh: "VirtualHosts routelessTable = [\<lparr>VirtualHost_Name = ''empty'', Routes = []\<rparr>]"
    by (simp add: routelessTable_def)
  have "RouteClusterNames (Some routelessTable) = Some {}"
    using RouteClusterNames_set [of routelessTable] vh by simp
  with ex vh RouteClusterNames_set [of exampleRouteTable] show ?thesis
    by simp
qed

section \<open>The listener functions compute the specified listener\<close>

lemma appendErrors_append:
  "appendErrors r (xs @ ys) = appendErrors (appendErrors r xs) ys"
  by (induction xs arbitrary: r) auto

lemma appendErrors_plain_Some:
  "\<forall>e\<in>set es. multierror_Errors e = [e] \<Longrightarrow>
   appendErrors (Some (MultiError xs)) es = Some (MultiError (xs @ es))"
  by (induction es arbitrary: xs) auto

lemma appendErrors_plain:
  "\<forall>e\<in>set es. multierror_Errors e = [e] \<Longrightarrow> appendErrors None es = aggregate es"
  by (cases es) (auto simp: aggregate_def appendErrors_plain_Some)

lemma filterErrors_plain: "e \<in> set (filterErrors ext config f) \<Longrightarrow> multierror_Errors e = [e]"
  by (auto simp: filterErrors_def split: prod.splits option.splits)

lemma patchFilters_eq:
  "patchFilters ext config fs (filters, patched, resultErr, calls) =
     (filters @ map (patchedFilter ext config) fs,
      patched \<or> (\<exists>f\<in>set fs. filterChanged ext config f),
      appendErrors resultErr (concat (map (filterErrors ext config) fs)),
      calls @ map PatchFilterCall fs)"
proof (induction fs arbitrary: filters patched resultErr calls)
  case Nil
  then show ?case by simp
next
  case (Cons f fs)
  show ?case
  proof (cases "PatchFilter ext config f")
    case (fields newFilter ok err)
    then show ?thesis
      by (cases err) (auto simp: Cons.IH patchedFilter_def filterChanged_def filterErrors_def)
  qed
qed

lemma getSNI_candidate:
  "(getSNI (Some fc) \<noteq> [] \<and> MatchesUpstreamServiceSNI config (getSNI (Some fc)))
     = serverNameCandidate config fc"
  by (auto simp: getSNI_def serverNameCandidate_def split: option.splits list.splits)

lemma terminatingGatewayChains_eq:
  "terminatingGatewayChains ext config fcs (visited, patched, resultErr, calls) =
     (visited @ rewriteChains ext config (serverNameCandidate config) fcs,
      patched \<or> (\<exists>f\<in>set (offeredFilters (serverNameCandidate config) fcs). filterChanged ext config f),
      appendErrors resultErr
        (concat (map (filterErrors ext config) (offeredFilters (serverNameCandidate config) fcs))),
      calls @ map PatchFilterCall (offeredFilters (serverNameCandidate config) fcs))"
proof (induction fcs arbitrary: visited patched resultErr calls)
  case Nil
  then show ?case by (simp add: rewriteChains_def offeredFilters_def)
next
  case (Cons fc fcs)
  show ?case
  proof (cases "serverNameCandidate config fc")
    case True
    then have "getSNI (Some fc) \<noteq> []" "MatchesUpstreamServiceSNI config (getSNI (Some fc))"
      using getSNI_candidate [of fc config] by auto
    with True show ?thesis
      by (auto simp: Cons.IH patchFilters_eq rewriteChains_def offeredFilters_def
          appendErrors_append Let_def)
  next
    case False
    then have "getSNI (Some fc) = [] \<or> \<not> MatchesUpstreamServiceSNI config (getSNI (Some fc))"
      using getSNI_candidate [of fc config] by auto
    with False show ?thesis
      by (auto simp: Cons.IH rewriteChains_def offeredFilters_def Let_def)
  qed
qed

lemma connectProxyChains_eq:
  "connectProxyChains ext config fcs (visited, patched, resultErr, calls) =
     (visited @ rewriteChains ext config (\<lambda>fc. True) fcs,
      patched \<or> (\<exists>f\<in>set (offeredFilters (\<lambda>fc. True) fcs). filterChanged ext config f),
      appendErrors resultErr
        (concat (map (filterErrors ext config) (offeredFilters (\<lambda>fc. True) fcs))),
      calls @ map PatchFilterCall (offeredFilters (\<lambda>fc. True) fcs))"
proof (induction fcs arbitrary: visited patched resultErr calls)
  case Nil
  then show ?case by (simp add: rewriteChains_def offeredFilters_def)
next
  case (Cons fc fcs)
  show ?case
    by (auto simp: Cons.IH patchFilters_eq rewriteChains_def offeredFilters_def appendErrors_append)
qed

lemma prefixRangesMatch_iff:
  "prefixRangesMatch vip ps \<longleftrightarrow> (\<exists>p\<in>set ps. AddressPrefix p = vip)"
  by (induction ps) auto

lemma filterChainTProxyMatch_Some:
  "FilterChainMatch fc = Some m \<Longrightarrow> filterChainTProxyMatch vip fc = Inr (vipCandidate vip fc)"
  by (simp add: filterChainTProxyMatch_def vipCandidate_def prefixRangesMatch_iff)

lemma tproxyChains_eq:
  "list_all (\<lambda>fc. FilterChainMatch fc \<noteq> None) fcs \<Longrightarrow>
   tproxyChains ext config vip fcs (visited, patched, resultErr, calls) =
     (Inr (visited @ rewriteChains ext config (vipCandidate vip) fcs,
           patched \<or> (\<exists>f\<in>set (offeredFilters (vipCandidate vip) fcs). filterChanged ext config f),
           appendErrors resultErr
             (concat (map (filterErrors ext config) (offeredFilters (vipCandidate vip) fcs)))),
      calls @ map PatchFilterCall (offeredFilters (vipCandidate vip) fcs))"
proof (induction fcs arbitrary: visited patched resultErr calls)
  case Nil
  then show ?case by (simp add: rewriteChains_def offeredFilters_def)
next
  case (Cons fc fcs)
  then obtain m where m: "FilterChainMatch fc = Some m" by auto
  from Cons.prems have rest: "list_all (\<lambda>fc. FilterChainMatch fc \<noteq> None) fcs" by simp
  show ?case
    by (auto simp: Cons.IH [OF rest] filterChainTProxyMatch_Some [OF m] patchFilters_eq
        rewriteChains_def offeredFilters_def appendErrors_append)
qed

lemma rewriteChains_none: "rewriteChains ext config (\<lambda>fc. False) fcs = fcs"
  by (simp add: rewriteChains_def)

lemma offeredFilters_none: "offeredFilters (\<lambda>fc. False) fcs = []"
  by (simp add: offeredFilters_def)

lemma listenerErrors_plain:
  "\<forall>e\<in>set (concat (map (filterErrors ext config) fs)). multierror_Errors e = [e]"
  by (auto dest: filterErrors_plain)

lemma kinds_distinct [simp]:
  "ServiceKindConnectProxy \<noteq> ServiceKindTerminatingGateway"
  "ServiceKindTerminatingGateway \<noteq> ServiceKindConnectProxy"
  by (simp_all add: ServiceKindConnectProxy_def ServiceKindTerminatingGateway_def)

lemma patchListener_eq:
  assumes "matchClausesPresent config l"
  shows "patchListener ext config l =
     (Inr (patchedListener ext config l,
           (\<exists>f\<in>set (listenerOffered config l). filterChanged ext config f),
           aggregate (concat (map (filterErrors ext config) (listenerOffered config l)))),
      map PatchFilterCall (listenerOffered config l))"
proof -
  note agg = appendErrors_plain [OF listenerErrors_plain, symmetric]
  consider (tgw) "Kind config = ServiceKindTerminatingGateway"
    | (cp) "Kind config \<noteq> ServiceKindTerminatingGateway" "Kind config = ServiceKindConnectProxy"
    | (other) "Kind config \<noteq> ServiceKindTerminatingGateway" "Kind config \<noteq> ServiceKindConnectProxy"
    by blast
  then show ?thesis
  proof cases
    case tgw
    show ?thesis
    proof (cases "IsUpstream config")
      case True
      have c: "chainCandidate config l = serverNameCandidate config"
        by (rule ext) (simp add: chainCandidate_def tgw True)
      show ?thesis
        using tgw True
        by (simp add: patchListener_def patchTerminatingGatewayListener_def
            terminatingGatewayChains_eq patchedListener_def listenerOffered_def c agg)
    next
      case False
      have c: "chainCandidate config l = (\<lambda>fc. False)"
        by (rule ext) (simp add: chainCandidate_def tgw False)
      show ?thesis
        using tgw False
        by (simp add: patchListener_def patchTerminatingGatewayListener_def
            patchedListener_def listenerOffered_def c rewriteChains_none offeredFilters_none
            aggregate_def)
    qed
  next
    case cp
    show ?thesis
    proof (cases "IsUpstream config")
      case True
      show ?thesis
      proof (cases "listenerEnvoyID l = OutboundListenerName")
        case outbound: True
        have c: "chainCandidate config l = vipCandidate (upstreamVIP config)"
          by (rule ext) (simp add: chainCandidate_def cp True outbound)
        from assms cp True outbound have
          safe: "list_all (\<lambda>fc. FilterChainMatch fc \<noteq> None) (FilterChains l)"
          by (simp add: matchClausesPresent_def)
        show ?thesis
          using cp True outbound
          by (simp add: Let_def patchListener_def patchConnectProxyListener_def patchTProxyListener_def
              tproxyChains_eq [OF safe] patchedListener_def listenerOffered_def c agg)
      next
        case other: False
        show ?thesis
        proof (cases "listenerEnvoyID l = EnvoyID config")
          case same: True
          have c: "chainCandidate config l = (\<lambda>fc. True)"
            using other same by (intro ext) (simp add: chainCandidate_def cp True)
          show ?thesis
            using cp True other same
            by (simp add: Let_def patchListener_def patchConnectProxyListener_def connectProxyChains_eq
                patchedListener_def listenerOffered_def c agg)
        next
          case differs: False
          have c: "chainCandidate config l = (\<lambda>fc. False)"
            using other differs by (intro ext) (simp add: chainCandidate_def cp True)
          show ?thesis
            using cp True other differs
            by (simp add: Let_def patchListener_def patchConnectProxyListener_def
                patchedListener_def listenerOffered_def c rewriteChains_none offeredFilters_none
                aggregate_def)
        qed
      qed
    next
      case False
      show ?thesis
      proof (cases "listenerEnvoyID l = PublicListenerName")
        case public: True
        have c: "chainCandidate config l = (\<lambda>fc. True)"
          by (rule ext) (simp add: chainCandidate_def cp False public)
        show ?thesis
          using cp False public
          by (simp add: Let_def patchListener_def patchConnectProxyListener_def connectProxyChains_eq
              patchedListener_def listenerOffered_def c agg)
      next
        case other: False
        have c: "chainCandidate config l = (\<lambda>fc. False)"
          by (rule ext) (simp add: chainCandidate_def cp False other)
        show ?thesis
          using cp False other
          by (simp add: Let_def patchListener_def patchConnectProxyListener_def
              patchedListener_def listenerOffered_def c rewriteChains_none offeredFilters_none
              aggregate_def)
      qed
    qed
  next
    case other
    have c: "chainCandidate config l = (\<lambda>fc. False)"
      by (rule ext) (simp add: chainCandidate_def other)
    show ?thesis
      using other
      by (simp add: patchListener_def patchedListener_def listenerOffered_def c
          rewriteChains_none offeredFilters_none aggregate_def)
  qed
qed

section \<open>A run on a well-formed resource set\<close>

lemma index_same:
  "Index resources T = Some m \<Longrightarrow> resources\<lparr>Index := (Index resources)(T \<mapsto> m)\<rparr> = resources"
  by (simp add: fun_upd_idem)

lemma update_update_same: "AList.update k v (AList.update k w m) = AList.update k v m"
  by (induction m) auto

lemma extendResource_eq:
  assumes idx: "Index resources T = Some m"
    and ent: "map_of m k = Some msg"
    and tag: "tagOk T msg"
    and safe: "entrySafe config msg"
  shows "extendResource ext config T (k, msg) (resources, resultErr, trace) =
     (Inr (resources\<lparr>Index := (Index resources)(T \<mapsto> AList.update k (entryResult ext config (k, msg)) m)\<rparr>,
           appendErrors resultErr (entryErrors ext config (k, msg))),
      trace @ entryCalls config (k, msg))"
proof (cases msg)
  case (MCluster c)
  with tag have T: "T = ClusterType" by (simp add: tagOk_def)
  note triv = update_triv [OF ent] index_same [OF idx]
  show ?thesis
  proof (cases "clusterOffered config k")
    case False
    then show ?thesis
      using MCluster triv
      by (auto simp: extendResource_def entryResult_def entryErrors_def entryCalls_def
          clusterOffered_def split: if_splits)
  next
    case True
    obtain newCluster patched err where p: "PatchCluster ext config c = (newCluster, patched, err)"
      by (cases "PatchCluster ext config c") auto
    from True have g: "\<not> (IsUpstream config \<and> \<not> MatchesUpstreamServiceSNI config k)"
      "\<not> (\<not> IsUpstream config \<and> k = LocalAppClusterName)"
      by (auto simp: clusterOffered_def split: if_splits)
    show ?thesis
      using MCluster True p g triv idx T
      by (cases err; cases patched)
         (simp_all add: extendResource_def entryResult_def entryErrors_def entryCalls_def
            setIndex_def)
  qed
next
  case (MListener l)
  with tag have T: "T = ListenerType" by (simp add: tagOk_def)
  from safe MListener have s: "matchClausesPresent config l" by (simp add: entrySafe_def)
  show ?thesis
    using MListener idx T
    by (auto simp: extendResource_def patchListener_eq [OF s] entryResult_def entryErrors_def
        entryCalls_def mutateInPlace_def setIndex_def Let_def update_update_same
        split: option.splits)
next
  case (MRoute r)
  with tag have T: "T = RouteType" by (simp add: tagOk_def)
  note triv = update_triv [OF ent] index_same [OF idx]
  show ?thesis
  proof (cases "routeOffered config k")
    case False
    then show ?thesis
      using MRoute triv
      by (auto simp: extendResource_def entryResult_def entryErrors_def entryCalls_def
          routeOffered_def Let_def)
  next
    case True
    obtain newRoute patched err where p: "PatchRoute ext config r = (newRoute, patched, err)"
      by (cases "PatchRoute ext config r") auto
    from True have g: "IsUpstream config"
      "\<not> (IsUpstream config \<and> \<not> MatchesUpstreamServiceSNI config k \<and> EnvoyID config \<noteq> k)"
      by (auto simp: routeOffered_def)
    show ?thesis
      using MRoute True p g triv idx T
      by (cases err; cases patched)
         (simp_all add: extendResource_def entryResult_def entryErrors_def entryCalls_def
            setIndex_def Let_def)
  qed
next
  case (MOther t)
  then show ?thesis
    using update_triv [OF ent] index_same [OF idx]
    by (simp add: extendResource_def entryResult_def entryErrors_def entryCalls_def)
qed

lemma types_distinct [simp]:
  "ListenerType \<noteq> RouteType" "ListenerType \<noteq> ClusterType" "RouteType \<noteq> ClusterType"
  "RouteType \<noteq> ListenerType" "ClusterType \<noteq> ListenerType" "ClusterType \<noteq> RouteType"
  by (simp_all add: ListenerType_def RouteType_def ClusterType_def)

lemma map_of_middle: "k \<notin> fst ` set ys \<Longrightarrow> map_of (ys @ (k, v) # xs) k = Some v"
  by (induction ys) auto

lemma update_middle:
  "k \<notin> fst ` set ys \<Longrightarrow> AList.update k v (ys @ (k, w) # xs) = ys @ (k, v) # xs"
  by (induction ys) auto

lemma extendEntries_eq:
  assumes "Index resources T = Some (ys @ xs)"
    and "distinct (map fst (ys @ xs))"
    and "list_all (\<lambda>e. tagOk T (snd e) \<and> entrySafe config (snd e)) xs"
  shows "extendEntries ext config T xs (resources, resultErr, trace) =
     (Inr (resources\<lparr>Index := (Index resources)(T \<mapsto> ys @ extendedEntries ext config xs)\<rparr>,
           appendErrors resultErr (concat (map (entryErrors ext config) xs))),
      trace @ concat (map (entryCalls config) xs))"
  using assms
proof (induction xs arbitrary: ys resources resultErr trace)
  case Nil
  then have "Index resources T = Some ys" by simp
  from index_same [OF this] have eq: "resources\<lparr>Index := (Index resources)(T \<mapsto> ys)\<rparr> = resources" .
  show ?case
    by (simp only: extendEntries.simps extendedEntries_def list.map append_Nil2 concat.simps eq
        appendErrors.simps)
next
  case (Cons x xs)
  obtain k msg where x: "x = (k, msg)" by (cases x)
  from Cons.prems(2) x have fresh: "k \<notin> fst ` set ys" by auto
  from Cons.prems(3) x have ok: "tagOk T msg" "entrySafe config msg" by auto
  let ?v = "entryResult ext config (k, msg)"
  let ?r = "resources\<lparr>Index := (Index resources)(T \<mapsto> (ys @ [(k, ?v)]) @ xs)\<rparr>"
  have step: "extendResource ext config T (k, msg) (resources, resultErr, trace) =
      (Inr (?r, appendErrors resultErr (entryErrors ext config (k, msg))),
       trace @ entryCalls config (k, msg))"
  proof -
    have i0: "Index resources T = Some (ys @ (k, msg) # xs)"
      using Cons.prems(1) x by simp
    have ent: "map_of (ys @ (k, msg) # xs) k = Some msg"
      by (rule map_of_middle [OF fresh])
    from extendResource_eq [OF i0 ent ok] show ?thesis
      by (simp add: update_middle [OF fresh])
  qed
  have idx: "Index ?r T = Some ((ys @ [(k, ?v)]) @ xs)" by simp
  have dist: "distinct (map fst ((ys @ [(k, ?v)]) @ xs))"
    using Cons.prems(2) x by simp
  have rest: "list_all (\<lambda>e. tagOk T (snd e) \<and> entrySafe config (snd e)) xs"
    using Cons.prems(3) by simp
  show ?case
    using Cons.IH [OF idx dist rest] step x
    by (simp add: extendedEntries_def appendErrors_append cong: if_cong)
qed

lemma extendEntries_index:
  assumes "indexOk config T (indexEntries resources T)"
  shows "extendEntries ext config T (indexEntries resources T) (resources, resultErr, trace) =
     (Inr (resources\<lparr>Index := (Index resources)
              (T := map_option (extendedEntries ext config) (Index resources T))\<rparr>,
           appendErrors resultErr (concat (map (entryErrors ext config) (indexEntries resources T)))),
      trace @ concat (map (entryCalls config) (indexEntries resources T)))"
proof (cases "Index resources T")
  case None
  then show ?thesis by (simp add: indexEntries_def fun_upd_idem)
next
  case (Some m)
  then have e: "indexEntries resources T = m" by (simp add: indexEntries_def)
  have i: "Index resources T = Some ([] @ m)" using Some by simp
  have d: "distinct (map fst ([] @ m))" using assms e by (simp add: indexOk_def)
  have a: "list_all (\<lambda>e. tagOk T (snd e) \<and> entrySafe config (snd e)) m"
    using assms e by (simp add: indexOk_def)
  from extendEntries_eq [OF i d a] e Some show ?thesis by simp
qed

lemma entryErrors_plain:
  assumes "e \<in> set (entryErrors ext config x)"
  shows "multierror_Errors e = [e]"
proof -
  obtain k msg where x: "x = (k, msg)" by (cases x)
  show ?thesis
  proof (cases msg)
    case (MCluster c)
    obtain newCluster patched err where p: "PatchCluster ext config c = (newCluster, patched, err)"
      by (cases "PatchCluster ext config c") auto
    have "entryErrors ext config x =
        (if clusterOffered config k \<and> err \<noteq> None then [Errorf ''error patching cluster'' (the err)]
         else [])"
      using x MCluster p by (cases err) (simp_all add: entryErrors_def)
    with assms show ?thesis by (cases "clusterOffered config k \<and> err \<noteq> None") simp_all
  next
    case (MListener l)
    have "entryErrors ext config x = [] \<or> (\<exists>err. entryErrors ext config x = [Errorf ''error patching listener'' err])"
      using x MListener
      by (cases "aggregate (concat (map (filterErrors ext config) (listenerOffered config l)))")
         (simp_all add: entryErrors_def)
    with assms show ?thesis by auto
  next
    case (MRoute r)
    obtain newRoute patched err where p: "PatchRoute ext config r = (newRoute, patched, err)"
      by (cases "PatchRoute ext config r") auto
    have "entryErrors ext config x =
        (if routeOffered config k \<and> err \<noteq> None then [Errorf ''error patching route'' (the err)]
         else [])"
      using x MRoute p by (cases err) (simp_all add: entryErrors_def)
    with assms show ?thesis by (cases "routeOffered config k \<and> err \<noteq> None") simp_all
  next
    case (MOther t)
    with assms x show ?thesis by (simp add: entryErrors_def)
  qed
qed

lemma Extend_eq:
  assumes kind: "Kind config = ServiceKindTerminatingGateway \<or> Kind config = ServiceKindConnectProxy"
    and can: "CanApply ext config"
    and wf: "wellFormed config resources"
  shows "Extend ext resources config =
     (Inr (extendedResources ext config resources,
           aggregate (concat (map (entryErrors ext config) (allEntries resources)))),
      concat (map (entryCalls config) (allEntries resources)))"
proof -
  define r1 where "r1 = resources\<lparr>Index := (Index resources)
      (ListenerType := map_option (extendedEntries ext config) (Index resources ListenerType))\<rparr>"
  define r2 where "r2 = r1\<lparr>Index := (Index r1)
      (RouteType := map_option (extendedEntries ext config) (Index r1 RouteType))\<rparr>"
  define r3 where "r3 = r2\<lparr>Index := (Index r2)
      (ClusterType := map_option (extendedEntries ext config) (Index r2 ClusterType))\<rparr>"
  define el where "el = concat (map (entryErrors ext config) (indexEntries resources ListenerType))"
  define er where "er = concat (map (entryErrors ext config) (indexEntries resources RouteType))"
  define ec where "ec = concat (map (entryErrors ext config) (indexEntries resources ClusterType))"
  define tl where "tl = concat (map (entryCalls config) (indexEntries resources ListenerType))"
  define tr where "tr = concat (map (entryCalls config) (indexEntries resources RouteType))"
  define tc where "tc = concat (map (entryCalls config) (indexEntries resources ClusterType))"
  from wf have l: "indexOk config ListenerType (indexEntries resources ListenerType)"
    and r: "indexOk config RouteType (indexEntries resources RouteType)"
    and c: "indexOk config ClusterType (indexEntries resources ClusterType)"
    by (simp_all add: wellFormed_def)
  have e1: "indexEntries r1 RouteType = indexEntries resources RouteType"
    by (simp add: indexEntries_def r1_def)
  have e2: "indexEntries r2 ClusterType = indexEntries resources ClusterType"
    by (simp add: indexEntries_def r1_def r2_def)
  from r e1 have r': "indexOk config RouteType (indexEntries r1 RouteType)" by simp
  from c e2 have c': "indexOk config ClusterType (indexEntries r2 ClusterType)" by simp
  have s1: "extendEntries ext config ListenerType (indexEntries resources ListenerType)
      (resources, None, []) = (Inr (r1, appendErrors None el), tl)"
    using extendEntries_index [OF l, of ext None "[]"] by (simp add: r1_def el_def tl_def)
  have s2: "extendEntries ext config RouteType (indexEntries r1 RouteType)
      (r1, appendErrors None el, tl) = (Inr (r2, appendErrors None (el @ er)), tl @ tr)"
    using extendEntries_index [OF r', of ext "appendErrors None el" tl]
    by (simp add: r2_def er_def tr_def e1 appendErrors_append)
  have s3: "extendEntries ext config ClusterType (indexEntries r2 ClusterType)
      (r2, appendErrors None (el @ er), tl @ tr)
      = (Inr (r3, appendErrors None (el @ er @ ec)), tl @ tr @ tc)"
    using extendEntries_index [OF c', of ext "appendErrors None (el @ er)" "tl @ tr"]
    by (simp add: r3_def ec_def tc_def e2 appendErrors_append)
  have res: "r3 = extendedResources ext config resources"
    by (simp add: r3_def r2_def r1_def extendedResources_def)
  have all: "el @ er @ ec = concat (map (entryErrors ext config) (allEntries resources))"
    "tl @ tr @ tc = concat (map (entryCalls config) (allEntries resources))"
    by (simp_all add: el_def er_def ec_def tl_def tr_def tc_def allEntries_def)
  have plain: "\<forall>e\<in>set (concat (map (entryErrors ext config) (allEntries resources))).
      multierror_Errors e = [e]"
    by (auto dest: entryErrors_plain)
  have "Extend ext resources config =
      extendIndexTypes ext config [ListenerType, RouteType, ClusterType] (resources, None, [])"
    using kind can by (auto simp: Extend_def)
  also have "\<dots> = (Inr (r3, appendErrors None (el @ er @ ec)), tl @ tr @ tc)"
    by (simp only: extendIndexTypes.simps s1 s2 s3 prod.case sum.case)
  finally show ?thesis
    by (simp only: res all appendErrors_plain [OF plain])
qed

section \<open>The calls of any run\<close>

lemma tproxyChains_calls:
  "snd (tproxyChains ext config vip fcs (visited, patched, resultErr, calls)) =
     calls @ map PatchFilterCall
       (offeredFilters (vipCandidate vip) (takeWhile (\<lambda>fc. FilterChainMatch fc \<noteq> None) fcs))"
proof (induction fcs arbitrary: visited patched resultErr calls)
  case Nil
  then show ?case by (simp add: offeredFilters_def)
next
  case (Cons fc fcs)
  show ?case
  proof (cases "FilterChainMatch fc")
    case None
    then show ?thesis by (simp add: filterChainTProxyMatch_def offeredFilters_def)
  next
    case (Some m)
    then show ?thesis
      by (simp add: filterChainTProxyMatch_Some [OF Some] Cons.IH patchFilters_eq offeredFilters_def)
  qed
qed

lemma patchListener_calls: "\<exists>fs. snd (patchListener ext config l) = map PatchFilterCall fs"
proof -
  have tgw: "\<exists>fs. snd (snd (snd (patchTerminatingGatewayListener ext config l))) = map PatchFilterCall fs"
    by (auto simp: patchTerminatingGatewayListener_def terminatingGatewayChains_eq)
  have tp: "\<exists>fs. snd (patchTProxyListener ext config l) = map PatchFilterCall fs"
  proof -
    obtain fs where "snd (tproxyChains ext config (upstreamVIP config) (FilterChains l)
        ([], False, None, [])) = [] @ map PatchFilterCall fs"
      using tproxyChains_calls [of ext config "upstreamVIP config" "FilterChains l"] by blast
    then show ?thesis
      by (auto simp: patchTProxyListener_def Let_def split: prod.splits sum.splits)
  qed
  have cp: "\<exists>fs. snd (patchConnectProxyListener ext config l) = map PatchFilterCall fs"
    using tp by (auto simp: patchConnectProxyListener_def Let_def connectProxyChains_eq)
  show ?thesis
    using tgw cp
    by (auto simp: patchListener_def split: prod.splits)
qed

lemma extendResource_calls:
  "\<exists>new. snd (extendResource ext config T (k, msg) (resources, resultErr, trace)) = trace @ new
      \<and> list_all (callAllowed config) new"
proof (cases msg)
  case (MCluster c)
  obtain newCluster patched err where p: "PatchCluster ext config c = (newCluster, patched, err)"
    by (cases "PatchCluster ext config c") auto
  show ?thesis
    using MCluster p
    by (cases err; cases patched; cases "setIndex resources ClusterType k (MCluster newCluster)")
       (auto simp: extendResource_def callAllowed_def clusterOffered_def)
next
  case (MListener l)
  obtain fs where fs: "snd (patchListener ext config l) = map PatchFilterCall fs"
    using patchListener_calls by blast
  obtain out calls where pl: "patchListener ext config l = (out, calls)"
    by (cases "patchListener ext config l")
  with fs have calls: "calls = map PatchFilterCall fs" by simp
  have ok: "list_all (callAllowed config) (map (Pair k) calls)"
    by (simp add: calls list_all_iff callAllowed_def)
  have "snd (extendResource ext config T (k, msg) (resources, resultErr, trace))
      = trace @ map (Pair k) calls"
    using MListener pl
    by (auto simp: extendResource_def Let_def split: sum.splits prod.splits option.splits)
  with ok show ?thesis by blast
next
  case (MRoute r)
  obtain newRoute patched err where p: "PatchRoute ext config r = (newRoute, patched, err)"
    by (cases "PatchRoute ext config r") auto
  show ?thesis
    using MRoute p
    by (cases err; cases patched; cases "setIndex resources RouteType k (MRoute newRoute)")
       (auto simp: extendResource_def callAllowed_def routeOffered_def Let_def)
next
  case (MOther t)
  then show ?thesis by (simp add: extendResource_def)
qed

lemma extendEntries_calls:
  "\<exists>new. snd (extendEntries ext config T xs (resources, resultErr, trace)) = trace @ new
      \<and> list_all (callAllowed config) new"
proof (induction xs arbitrary: resources resultErr trace)
  case Nil
  then show ?case by simp
next
  case (Cons x xs)
  obtain k msg where x: "x = (k, msg)" by (cases x)
  obtain new where new: "snd (extendResource ext config T (k, msg) (resources, resultErr, trace))
      = trace @ new" "list_all (callAllowed config) new"
    using extendResource_calls by blast
  obtain out tr where step: "extendResource ext config T (k, msg) (resources, resultErr, trace) = (out, tr)"
    by (cases "extendResource ext config T (k, msg) (resources, resultErr, trace)")
  with new have tr: "tr = trace @ new" by simp
  show ?case
  proof (cases out)
    case (Inl p)
    with step x tr new(2) show ?thesis by simp
  next
    case (Inr st)
    obtain resources' resultErr' where st: "st = (resources', resultErr')" by (cases st)
    obtain new' where "snd (extendEntries ext config T xs (resources', resultErr', tr)) = tr @ new'"
      "list_all (callAllowed config) new'"
      using Cons.IH by blast
    with Inr st step x tr new(2)
    have "snd (extendEntries ext config T (x # xs) (resources, resultErr, trace)) = trace @ (new @ new')
        \<and> list_all (callAllowed config) (new @ new')"
      by simp
    then show ?thesis by blast
  qed
qed

lemma extendIndexTypes_calls:
  "\<exists>new. snd (extendIndexTypes ext config Ts (resources, resultErr, trace)) = trace @ new
      \<and> list_all (callAllowed config) new"
proof (induction Ts arbitrary: resources resultErr trace)
  case Nil
  then show ?case by simp
next
  case (Cons T Ts)
  obtain new where new: "snd (extendEntries ext config T (indexEntries resources T)
      (resources, resultErr, trace)) = trace @ new" "list_all (callAllowed config) new"
    using extendEntries_calls by blast
  obtain out tr where step: "extendEntries ext config T (indexEntries resources T)
      (resources, resultErr, trace) = (out, tr)"
    by (cases "extendEntries ext config T (indexEntries resources T) (resources, resultErr, trace)")
  with new have tr: "tr = trace @ new" by simp
  show ?case
  proof (cases out)
    case (Inl p)
    with step tr new(2) show ?thesis by simp
  next
    case (Inr st)
    obtain resources' resultErr' where st: "st = (resources', resultErr')" by (cases st)
    obtain new' where "snd (extendIndexTypes ext config Ts (resources', resultErr', tr)) = tr @ new'"
      "list_all (callAllowed config) new'"
      using Cons.IH by blast
    with Inr st step tr new(2)
    have "snd (extendIndexTypes ext config (T # Ts) (resources, resultErr, trace)) = trace @ (new @ new')
        \<and> list_all (callAllowed config) (new @ new')"
      by simp
    then show ?thesis by blast
  qed
qed

lemma Extend_calls: "kc \<in> set (snd (Extend ext resources config)) \<Longrightarrow> callAllowed config kc"
proof -
  assume a: "kc \<in> set (snd (Extend ext resources config))"
  obtain new where "snd (extendIndexTypes ext config [ListenerType, RouteType, ClusterType]
      (resources, None, [])) = [] @ new" "list_all (callAllowed config) new"
    using extendIndexTypes_calls by blast
  with a show ?thesis
    by (auto simp: Extend_def list_all_iff split: if_splits)
qed

section \<open>Evaluation of the sample inputs\<close>

lemmas sample_defs = ServiceKindTerminatingGateway_def ServiceKindConnectProxy_def
  ListenerType_def RouteType_def ClusterType_def LocalAppClusterName_def
  OutboundListenerName_def PublicListenerName_def
  IsUpstream_def MatchesUpstreamServiceSNI_def EnvoyID_def upstreamVIP_def
  upstreamConfig_def downstreamConfig_def sampleService_def sampleUpstream_def
  sampleExtension_def sampleResources_def sampleCluster_def sampleFilter_def
  indexEntries_def setIndex_def mutateInPlace_def
  Extend_def extendResource_def patchListener_def patchConnectProxyListener_def
  patchTProxyListener_def patchTerminatingGatewayListener_def listenerEnvoyID_def IndexByte_def
  filterChainTProxyMatch_def getSNI_def

lemmas wellFormed_defs = wellFormed_def indexOk_def tagOk_def entrySafe_def matchClausesPresent_def

lemma mixed_trace:
  "snd (Extend sampleExtension mixedResources (upstreamConfig ServiceKindConnectProxy)) =
     [(''db:127.0.0.1:9191'', PatchFilterCall (sampleFilter ''bad'')),
      (''db:127.0.0.1:9191'', PatchFilterCall (sampleFilter ''tcp'')),
      (''db'', PatchRouteCall (sampleRoute ''db'')),
      (''db.default.dc2.internal'', PatchRouteCall (sampleRoute ''bad'')),
      (''db.default.dc1.internal'', PatchClusterCall (sampleCluster ''db.default.dc1.internal'' ''bad'')),
      (''db.default.dc2.internal'', PatchClusterCall (sampleCluster ''db.default.dc2.internal'' []))]"
  by (simp add: sample_defs mixedResources_def upstreamListener_def sampleRoute_def)

lemma mixed_wellFormed: "wellFormed (upstreamConfig ServiceKindConnectProxy) mixedResources"
  by (simp add: wellFormed_defs mixedResources_def upstreamListener_def sample_defs)

lemma clean_wellFormed: "wellFormed (upstreamConfig ServiceKindConnectProxy) cleanResources"
  by (simp add: wellFormed_defs cleanResources_def upstreamListener_def sample_defs)

lemma clean_trace:
  "snd (Extend sampleExtension cleanResources (upstreamConfig ServiceKindConnectProxy)) =
     [(''db:127.0.0.1:9191'', PatchFilterCall (sampleFilter ''tcp'')),
      (''db'', PatchRouteCall (sampleRoute ''db'')),
      (''db.default.dc2.internal'', PatchClusterCall (sampleCluster ''db.default.dc2.internal'' []))]"
  by (simp add: sample_defs cleanResources_def upstreamListener_def sampleRoute_def)

lemma sample_kind:
  "Kind (upstreamConfig ServiceKindConnectProxy) = ServiceKindTerminatingGateway
   \<or> Kind (upstreamConfig ServiceKindConnectProxy) = ServiceKindConnectProxy"
  by (simp add: upstreamConfig_def)

lemma sample_can: "CanApply sampleExtension config"
  by (simp add: sampleExtension_def)

section \<open>Configurations the extender does not apply to\<close>

text \<open>
  C9. When the service kind of the configuration is neither terminating-gateway nor
  connect-proxy, or when \<open>CanApply\<close> returns false, \<open>Extend\<close> returns the resource set it
  was given and a nil error, and makes no patch call, whatever the resource set holds.
\<close>

theorem Extend_not_applicable:
  "(Kind config \<noteq> ServiceKindTerminatingGateway \<and> Kind config \<noteq> ServiceKindConnectProxy)
     \<or> \<not> CanApply ext config
   \<Longrightarrow> Extend ext resources config = (Inr (resources, None), [])"
  by (auto simp: Extend_def)

text \<open>
  A mesh-gateway configuration, and a connect-proxy configuration with an extension
  that declines it.
\<close>

theorem Extend_not_applicable_witness:
  "Kind (upstreamConfig ''mesh-gateway'') \<noteq> ServiceKindTerminatingGateway
   \<and> Kind (upstreamConfig ''mesh-gateway'') \<noteq> ServiceKindConnectProxy
   \<and> Extend sampleExtension localAndUpstreamClusters (upstreamConfig ''mesh-gateway'')
       = (Inr (localAndUpstreamClusters, None), [])
   \<and> CanApply decliningExtension (upstreamConfig ServiceKindConnectProxy) = False
   \<and> Extend decliningExtension localAndUpstreamClusters (upstreamConfig ServiceKindConnectProxy)
       = (Inr (localAndUpstreamClusters, None), [])"
proof -
  have k: "Kind (upstreamConfig ''mesh-gateway'') \<noteq> ServiceKindTerminatingGateway
      \<and> Kind (upstreamConfig ''mesh-gateway'') \<noteq> ServiceKindConnectProxy"
    by (simp add: upstreamConfig_def ServiceKindTerminatingGateway_def ServiceKindConnectProxy_def)
  have c: "\<not> CanApply decliningExtension (upstreamConfig ServiceKindConnectProxy)"
    by (simp add: decliningExtension_def)
  show ?thesis
    using k c
      Extend_not_applicable [of "upstreamConfig ''mesh-gateway''" sampleExtension localAndUpstreamClusters]
      Extend_not_applicable [of "upstreamConfig ServiceKindConnectProxy" decliningExtension localAndUpstreamClusters]
    by simp
qed

section \<open>Transparent-proxy matching\<close>

text \<open>
  C5. \<open>filterChainTProxyMatch\<close> returns true exactly when the chain has a match clause
  with a prefix range whose address prefix is, as a string, the VIP. For a
  configuration with the upstream record \<open>u\<close> of its service, the filters that
  \<open>patchTProxyListener\<close> offers to \<open>PatchFilter\<close> are, in order, those of the chains that
  have a prefix range whose address prefix is the VIP of \<open>u\<close> (the chains up to the first
  one without a match clause, where the function panics). The prefix \<open>10.0.0.5/32\<close>
  does not match the VIP \<open>10.0.0.5\<close>, nor the prefix \<open>10.0.0.5\<close> the VIP \<open>10.0.0.5/32\<close>;
  equal strings match.
\<close>

theorem tproxy_match_is_string_equality:
  "(filterChainTProxyMatch vip fc = Inr True \<longleftrightarrow>
      (\<exists>m. FilterChainMatch fc = Some m \<and> (\<exists>p\<in>set (PrefixRanges m). AddressPrefix p = vip)))
   \<and> (\<forall>u. Upstreams config (ServiceName config) = Some u \<longrightarrow>
        snd (patchTProxyListener ext config l) =
          map PatchFilterCall (concat (map Filters
            (filter (\<lambda>fc. \<exists>m. FilterChainMatch fc = Some m
                         \<and> (\<exists>p\<in>set (PrefixRanges m). AddressPrefix p = UpstreamData_VIP u))
               (takeWhile (\<lambda>fc. FilterChainMatch fc \<noteq> None) (FilterChains l))))))
   \<and> filterChainTProxyMatch ''10.0.0.5''
        \<lparr>FilterChainMatch = Some \<lparr>ServerNames = [],
           PrefixRanges = [\<lparr>AddressPrefix = ''10.0.0.5/32'', PrefixLen = 32\<rparr>]\<rparr>,
         Filters = fs\<rparr> = Inr False
   \<and> filterChainTProxyMatch ''10.0.0.5/32''
        \<lparr>FilterChainMatch = Some \<lparr>ServerNames = [],
           PrefixRanges = [\<lparr>AddressPrefix = ''10.0.0.5'', PrefixLen = 32\<rparr>]\<rparr>,
         Filters = fs\<rparr> = Inr False
   \<and> filterChainTProxyMatch ''10.0.0.5''
        \<lparr>FilterChainMatch = Some \<lparr>ServerNames = [],
           PrefixRanges = [\<lparr>AddressPrefix = ''10.0.0.5'', PrefixLen = 32\<rparr>]\<rparr>,
         Filters = fs\<rparr> = Inr True"
proof -
  have cand: "\<And>vip fc. vipCandidate vip fc \<longleftrightarrow>
      (\<exists>m. FilterChainMatch fc = Some m \<and> (\<exists>p\<in>set (PrefixRanges m). AddressPrefix p = vip))"
    by (auto simp: vipCandidate_def split: option.splits)
  have c1: "filterChainTProxyMatch vip fc = Inr True \<longleftrightarrow>
      (\<exists>m. FilterChainMatch fc = Some m \<and> (\<exists>p\<in>set (PrefixRanges m). AddressPrefix p = vip))"
    by (auto simp: filterChainTProxyMatch_def prefixRangesMatch_iff split: option.splits)
  have c2: "snd (patchTProxyListener ext config l) =
       map PatchFilterCall (concat (map Filters
         (filter (\<lambda>fc. \<exists>m. FilterChainMatch fc = Some m
                      \<and> (\<exists>p\<in>set (PrefixRanges m). AddressPrefix p = UpstreamData_VIP u))
            (takeWhile (\<lambda>fc. FilterChainMatch fc \<noteq> None) (FilterChains l)))))"
    if u: "Upstreams config (ServiceName config) = Some u" for u
  proof -
    from u have vip: "upstreamVIP config = UpstreamData_VIP u"
      by (simp add: upstreamVIP_def)
    have candf: "vipCandidate (UpstreamData_VIP u) =
        (\<lambda>fc. \<exists>m. FilterChainMatch fc = Some m
               \<and> (\<exists>p\<in>set (PrefixRanges m). AddressPrefix p = UpstreamData_VIP u))"
      by (rule ext) (rule cand)
    have "snd (patchTProxyListener ext config l) =
        map PatchFilterCall (offeredFilters (vipCandidate (UpstreamData_VIP u))
          (takeWhile (\<lambda>fc. FilterChainMatch fc \<noteq> None) (FilterChains l)))"
      using tproxyChains_calls [of ext config "upstreamVIP config" "FilterChains l" "[]" False None "[]"]
      by (auto simp: patchTProxyListener_def Let_def vip split: prod.splits sum.splits)
    then show ?thesis
      by (simp only: offeredFilters_def candf)
  qed
  have c3: "filterChainTProxyMatch ''10.0.0.5''
        \<lparr>FilterChainMatch = Some \<lparr>ServerNames = [],
           PrefixRanges = [\<lparr>AddressPrefix = ''10.0.0.5/32'', PrefixLen = 32\<rparr>]\<rparr>,
         Filters = fs\<rparr> = Inr False"
    by (simp add: filterChainTProxyMatch_def)
  have c4: "filterChainTProxyMatch ''10.0.0.5/32''
        \<lparr>FilterChainMatch = Some \<lparr>ServerNames = [],
           PrefixRanges = [\<lparr>AddressPrefix = ''10.0.0.5'', PrefixLen = 32\<rparr>]\<rparr>,
         Filters = fs\<rparr> = Inr False"
    by (simp add: filterChainTProxyMatch_def)
  have c5: "filterChainTProxyMatch ''10.0.0.5''
        \<lparr>FilterChainMatch = Some \<lparr>ServerNames = [],
           PrefixRanges = [\<lparr>AddressPrefix = ''10.0.0.5'', PrefixLen = 32\<rparr>]\<rparr>,
         Filters = fs\<rparr> = Inr True"
    by (simp add: filterChainTProxyMatch_def)
  from c2 have c2': "\<forall>u. Upstreams config (ServiceName config) = Some u \<longrightarrow>
        snd (patchTProxyListener ext config l) =
          map PatchFilterCall (concat (map Filters
            (filter (\<lambda>fc. \<exists>m. FilterChainMatch fc = Some m
                         \<and> (\<exists>p\<in>set (PrefixRanges m). AddressPrefix p = UpstreamData_VIP u))
               (takeWhile (\<lambda>fc. FilterChainMatch fc \<noteq> None) (FilterChains l)))))"
    by blast
  from c1 c2' c3 c4 c5 show ?thesis by (intro conjI)
qed

text \<open>
  For the upstream \<open>db\<close> with the VIP \<open>10.0.0.5\<close>, of the chains for \<open>10.0.0.5/32\<close>,
  \<open>10.0.0.5\<close> and \<open>10.0.0.6\<close> only the second has its filter offered, by
  \<open>patchTProxyListener\<close> and in the run of \<open>Extend\<close>.
\<close>

theorem tproxy_match_is_string_equality_witness:
  "Upstreams (upstreamConfig ServiceKindConnectProxy)
       (ServiceName (upstreamConfig ServiceKindConnectProxy)) = Some sampleUpstream
   \<and> UpstreamData_VIP sampleUpstream = ''10.0.0.5''
   \<and> snd (patchTProxyListener sampleExtension (upstreamConfig ServiceKindConnectProxy) tproxyListener)
       = [PatchFilterCall (sampleFilter ''tcp'')]
   \<and> snd (Extend sampleExtension tproxyResources (upstreamConfig ServiceKindConnectProxy))
       = [(''outbound_listener:127.0.0.1:15001'', PatchFilterCall (sampleFilter ''tcp''))]"
proof -
  let ?cfg = "upstreamConfig ServiceKindConnectProxy"
  have u: "Upstreams ?cfg (ServiceName ?cfg) = Some sampleUpstream"
    by (simp add: upstreamConfig_def)
  have v: "UpstreamData_VIP sampleUpstream = ''10.0.0.5''"
    by (simp add: sampleUpstream_def)
  have e: "snd (Extend sampleExtension tproxyResources ?cfg)
       = [(''outbound_listener:127.0.0.1:15001'', PatchFilterCall (sampleFilter ''tcp''))]"
    by (simp add: sample_defs tproxyResources_def tproxyListener_def vipChain_def)
  from tproxy_match_is_string_equality [of _ _ ?cfg sampleExtension tproxyListener, THEN conjunct2,
      THEN conjunct1, rule_format, OF u]
  have "snd (patchTProxyListener sampleExtension ?cfg tproxyListener)
       = [PatchFilterCall (sampleFilter ''tcp'')]"
    by (simp add: v tproxyListener_def vipChain_def)
  with u v e show ?thesis by simp
qed

text \<open>
  C6. The claim that a filter chain without a match clause is not a candidate and never
  fails the pass does not hold of the code: for an upstream-scoped connect-proxy
  configuration and an outbound listener with such a chain, \<open>Extend\<close> panics with a nil
  pointer dereference before any patch call. \<open>getSNI\<close> on the same chain returns the
  empty string: it checks for the absent match clause.
\<close>

theorem tproxy_unmatched_chain_panics:
  "Extend sampleExtension outboundResources (upstreamConfig ServiceKindConnectProxy)
     = (Inl NilPointerDereference, [])
   \<and> getSNI (Some unmatchedChain) = []"
  by (simp add: sample_defs outboundResources_def outboundListener_def unmatchedChain_def)

section \<open>Which clusters and routes are offered\<close>

text \<open>
  C3. The claim that only downstream-scoped instances are offered the local-service
  cluster, and only upstream-scoped instances the other clusters, does not hold of the
  code: for a downstream-scoped configuration and a resource set with the cluster
  \<open>local_app\<close> and the cluster \<open>db.default.dc1.internal\<close>, the only call of the run is
  \<open>PatchCluster\<close> on the latter.
\<close>

theorem downstream_cluster_calls:
  "snd (Extend sampleExtension localAndUpstreamClusters (downstreamConfig ServiceKindConnectProxy))
     = [(''db.default.dc1.internal'', PatchClusterCall (sampleCluster ''db.default.dc1.internal'' []))]"
  by (simp add: sample_defs localAndUpstreamClusters_def)

text \<open>
  C8. Whenever a run calls \<open>PatchRoute\<close> on a route found under the key \<open>k\<close>, the
  configuration is upstream-scoped and \<open>k\<close> matches the upstream's SNI or is its
  \<open>EnvoyID\<close>. So a downstream-scoped instance never has \<open>PatchRoute\<close> called.
\<close>

theorem PatchRoute_only_upstream_match:
  "(k, PatchRouteCall r) \<in> set (snd (Extend ext resources config))
   \<Longrightarrow> IsUpstream config \<and> (MatchesUpstreamServiceSNI config k \<or> EnvoyID config = k)"
  using Extend_calls [of "(k, PatchRouteCall r)" ext resources config]
  by (simp add: callAllowed_def routeOffered_def)

text \<open>
  With the routes \<open>db\<close> and \<open>web\<close>, the upstream-scoped instance of \<open>db\<close> is offered the
  route \<open>db\<close> only, and the downstream-scoped instance none.
\<close>

theorem PatchRoute_only_upstream_match_witness:
  "snd (Extend sampleExtension routeResources (upstreamConfig ServiceKindConnectProxy))
     = [(''db'', PatchRouteCall (sampleRoute ''db''))]
   \<and> IsUpstream (upstreamConfig ServiceKindConnectProxy)
   \<and> (MatchesUpstreamServiceSNI (upstreamConfig ServiceKindConnectProxy) ''db''
       \<or> EnvoyID (upstreamConfig ServiceKindConnectProxy) = ''db'')
   \<and> snd (Extend sampleExtension routeResources (downstreamConfig ServiceKindConnectProxy)) = []"
proof -
  have t: "snd (Extend sampleExtension routeResources (upstreamConfig ServiceKindConnectProxy))
      = [(''db'', PatchRouteCall (sampleRoute ''db''))]"
    by (simp add: sample_defs routeResources_def sampleRoute_def)
  have d: "snd (Extend sampleExtension routeResources (downstreamConfig ServiceKindConnectProxy)) = []"
    by (simp add: sample_defs routeResources_def sampleRoute_def)
  from t have "(''db'', PatchRouteCall (sampleRoute ''db''))
      \<in> set (snd (Extend sampleExtension routeResources (upstreamConfig ServiceKindConnectProxy)))"
    by simp
  from PatchRoute_only_upstream_match [OF this] t d show ?thesis by simp
qed

section \<open>Terminating-gateway listeners\<close>

lemma terminatingGateway_safe:
  "Kind config = ServiceKindTerminatingGateway \<Longrightarrow> matchClausesPresent config l"
  by (simp add: matchClausesPresent_def)

lemma filterChanged_iff:
  "filterChanged ext config f \<longleftrightarrow> (\<exists>newFilter. PatchFilter ext config f = (newFilter, True, None))"
proof (cases "PatchFilter ext config f")
  case (fields newFilter ok err)
  then show ?thesis by (cases err) (auto simp: filterChanged_def)
qed

text \<open>
  C7, as amended. For a terminating-gateway, upstream-scoped configuration, the filters
  offered to \<open>PatchFilter\<close> are, in order, those of exactly the filter chains whose first
  declared server name is not empty and matches the upstream's SNI, and the listener is
  reported changed if and only if one of the offered filters returned \<open>changed = true\<close>
  without an error.
\<close>

theorem terminating_gateway_chains:
  assumes "Kind config = ServiceKindTerminatingGateway" and "IsUpstream config"
  shows "snd (patchListener ext config l) =
       map PatchFilterCall (concat (map Filters (filter (serverNameCandidate config) (FilterChains l))))
     \<and> (\<exists>l' err. fst (patchListener ext config l) =
           Inr (l',
                (\<exists>f\<in>set (concat (map Filters (filter (serverNameCandidate config) (FilterChains l)))).
                   \<exists>newFilter. PatchFilter ext config f = (newFilter, True, None)),
                err))"
proof -
  have c: "chainCandidate config l = serverNameCandidate config"
    by (rule ext) (simp add: chainCandidate_def assms)
  show ?thesis
    by (simp add: patchListener_eq [OF terminatingGateway_safe [OF assms(1)]] listenerOffered_def c
        offeredFilters_def filterChanged_iff)
qed

text \<open>
  The spec's scenario: of the two chains only the one for the upstream's SNI has its
  filter offered, and the listener is reported changed.
\<close>

theorem terminating_gateway_chains_witness:
  "Kind (upstreamConfig ServiceKindTerminatingGateway) = ServiceKindTerminatingGateway
   \<and> IsUpstream (upstreamConfig ServiceKindTerminatingGateway)
   \<and> snd (patchListener sampleExtension (upstreamConfig ServiceKindTerminatingGateway) gatewayListener)
       = [PatchFilterCall (sampleFilter ''tcp'')]
   \<and> (\<exists>l' err. fst (patchListener sampleExtension (upstreamConfig ServiceKindTerminatingGateway)
         gatewayListener) = Inr (l', True, err))"
proof -
  have k: "Kind (upstreamConfig ServiceKindTerminatingGateway) = ServiceKindTerminatingGateway"
    by (simp add: upstreamConfig_def)
  have u: "IsUpstream (upstreamConfig ServiceKindTerminatingGateway)"
    by (simp add: sample_defs)
  have f: "filter (serverNameCandidate (upstreamConfig ServiceKindTerminatingGateway))
      (FilterChains gatewayListener) = [serverNameChain ''db.default.dc1.internal'' [sampleFilter ''tcp'']]"
    by (simp add: gatewayListener_def serverNameChain_def serverNameCandidate_def sample_defs)
  have p: "PatchFilter sampleExtension (upstreamConfig ServiceKindTerminatingGateway) (sampleFilter ''tcp'')
      = ((sampleFilter ''tcp'')\<lparr>Filter_TypedConfig := Some ''patched''\<rparr>, True, None)"
    by (simp add: sampleExtension_def sampleFilter_def)
  from terminating_gateway_chains [OF k u, of sampleExtension gatewayListener] k u show ?thesis
    by (simp add: f p serverNameChain_def)
qed

text \<open>
  C7 as stated fails on the code. An offered filter for which \<open>PatchFilter\<close> returns
  \<open>changed = true\<close> with an error does not make the listener changed. And a chain whose
  first declared server name is the empty string is skipped although the name
  satisfies \<open>MatchesUpstreamServiceSNI\<close>.
\<close>

theorem changed_with_error_not_reported:
  "fst (snd (PatchFilter faultyExtension (upstreamConfig ServiceKindTerminatingGateway)
       (sampleFilter ''tcp''))) = True
   \<and> patchListener faultyExtension (upstreamConfig ServiceKindTerminatingGateway) gatewayListener
       = (Inr (gatewayListener, False,
               Some (MultiError [Errorf ''error patching listener filter''
                                   (ExtensionError ''failed after change'')])),
          [PatchFilterCall (sampleFilter ''tcp'')])
   \<and> Kind emptyNameConfig = ServiceKindTerminatingGateway
   \<and> IsUpstream emptyNameConfig
   \<and> ServerNames (the (FilterChainMatch (hd (FilterChains emptyNameListener)))) = [[]]
   \<and> MatchesUpstreamServiceSNI emptyNameConfig []
   \<and> snd (patchListener sampleExtension emptyNameConfig emptyNameListener) = []"
  by (simp add: sample_defs faultyExtension_def gatewayListener_def serverNameChain_def
      emptyNameConfig_def emptyNameListener_def)

section \<open>Clusters outside the scope\<close>

lemma indexEntries_extended:
  "indexEntries (extendedResources ext config resources) ListenerType
     = extendedEntries ext config (indexEntries resources ListenerType)"
  "indexEntries (extendedResources ext config resources) RouteType
     = extendedEntries ext config (indexEntries resources RouteType)"
  "indexEntries (extendedResources ext config resources) ClusterType
     = extendedEntries ext config (indexEntries resources ClusterType)"
  by (simp_all add: indexEntries_def extendedResources_def extendedEntries_def split: option.splits)

lemma map_of_extendedEntries:
  "map_of (extendedEntries ext config m) k
     = map_option (\<lambda>msg. entryResult ext config (k, msg)) (map_of m k)"
  by (induction m) (auto simp: extendedEntries_def)

lemma entryResult_not_offered:
  assumes "\<not> clusterOffered config k" and "tagOk ClusterType msg"
  shows "entryResult ext config (k, msg) = msg"
  using assms by (cases msg) (simp_all add: entryResult_def tagOk_def)

lemma wellFormed_cluster_tag:
  assumes "wellFormed config resources"
    and "map_of (indexEntries resources ClusterType) k = Some msg"
  shows "tagOk ClusterType msg"
proof -
  from assms(2) have "(k, msg) \<in> set (indexEntries resources ClusterType)"
    by (rule map_of_SomeD)
  with assms(1) show ?thesis
    by (auto simp: wellFormed_def indexOk_def list_all_iff)
qed

text \<open>
  C4. Let the key \<open>k\<close> fail the cluster predicate of the scope: the configuration is
  upstream-scoped and \<open>k\<close> does not match the upstream's SNI, or it is downstream-scoped
  and \<open>k\<close> is the local-service cluster name. Then no run calls \<open>PatchCluster\<close> on a
  resource found under \<open>k\<close>, and on a well-formed resource set \<open>Extend\<close> returns and the
  entry of \<open>k\<close> in the cluster index is the one of the input.
\<close>

theorem unmatched_cluster_untouched:
  assumes "(IsUpstream config \<and> \<not> MatchesUpstreamServiceSNI config k)
           \<or> (\<not> IsUpstream config \<and> k = LocalAppClusterName)"
  shows "(\<forall>c. (k, PatchClusterCall c) \<notin> set (snd (Extend ext resources config)))
     \<and> (wellFormed config resources \<longrightarrow>
          (\<exists>resources' agg. fst (Extend ext resources config) = Inr (resources', agg)
             \<and> map_of (indexEntries resources' ClusterType) k
                 = map_of (indexEntries resources ClusterType) k))"
proof -
  from assms have no: "\<not> clusterOffered config k"
    by (auto simp: clusterOffered_def)
  have calls: "\<forall>c. (k, PatchClusterCall c) \<notin> set (snd (Extend ext resources config))"
  proof (intro allI notI)
    fix c
    assume "(k, PatchClusterCall c) \<in> set (snd (Extend ext resources config))"
    from Extend_calls [OF this] no show False by (simp add: callAllowed_def)
  qed
  have entry: "\<exists>resources' agg. fst (Extend ext resources config) = Inr (resources', agg)
      \<and> map_of (indexEntries resources' ClusterType) k = map_of (indexEntries resources ClusterType) k"
    if wf: "wellFormed config resources"
  proof (cases "(Kind config = ServiceKindTerminatingGateway \<or> Kind config = ServiceKindConnectProxy)
      \<and> CanApply ext config")
    case False
    then show ?thesis by (auto simp: Extend_def)
  next
    case True
    then have kind: "Kind config = ServiceKindTerminatingGateway \<or> Kind config = ServiceKindConnectProxy"
      and can: "CanApply ext config" by simp_all
    have same: "map_of (indexEntries (extendedResources ext config resources) ClusterType) k
        = map_of (indexEntries resources ClusterType) k"
    proof (cases "map_of (indexEntries resources ClusterType) k")
      case None
      then show ?thesis by (simp add: indexEntries_extended map_of_extendedEntries)
    next
      case (Some msg)
      from entryResult_not_offered [OF no wellFormed_cluster_tag [OF wf Some]] Some
      show ?thesis by (simp add: indexEntries_extended map_of_extendedEntries)
    qed
    show ?thesis
      using same by (simp add: Extend_eq [OF kind can wf])
  qed
  from calls entry show ?thesis by blast
qed

text \<open>
  The cluster \<open>local_app\<close> for the upstream-scoped instance of \<open>db\<close>, and for the
  downstream-scoped one.
\<close>

theorem unmatched_cluster_untouched_witness:
  "IsUpstream (upstreamConfig ServiceKindConnectProxy)
   \<and> \<not> MatchesUpstreamServiceSNI (upstreamConfig ServiceKindConnectProxy) ''local_app''
   \<and> wellFormed (upstreamConfig ServiceKindConnectProxy) clusterResources
   \<and> (\<exists>resources' agg.
        fst (Extend sampleExtension clusterResources (upstreamConfig ServiceKindConnectProxy))
          = Inr (resources', agg)
        \<and> map_of (indexEntries resources' ClusterType) ''local_app''
            = Some (MCluster (sampleCluster ''local_app'' [])))
   \<and> (''local_app'', PatchClusterCall (sampleCluster ''local_app'' []))
        \<notin> set (snd (Extend sampleExtension clusterResources (upstreamConfig ServiceKindConnectProxy)))
   \<and> \<not> IsUpstream (downstreamConfig ServiceKindConnectProxy)
   \<and> wellFormed (downstreamConfig ServiceKindConnectProxy) clusterResources
   \<and> (\<exists>resources' agg.
        fst (Extend sampleExtension clusterResources (downstreamConfig ServiceKindConnectProxy))
          = Inr (resources', agg)
        \<and> map_of (indexEntries resources' ClusterType) LocalAppClusterName
            = Some (MCluster (sampleCluster ''local_app'' [])))"
proof -
  have u: "IsUpstream (upstreamConfig ServiceKindConnectProxy)"
    "\<not> MatchesUpstreamServiceSNI (upstreamConfig ServiceKindConnectProxy) ''local_app''"
    by (simp_all add: sample_defs)
  have d: "\<not> IsUpstream (downstreamConfig ServiceKindConnectProxy)"
    by (simp add: sample_defs)
  have wu: "wellFormed (upstreamConfig ServiceKindConnectProxy) clusterResources"
    by (simp add: wellFormed_defs clusterResources_def sample_defs)
  have wd: "wellFormed (downstreamConfig ServiceKindConnectProxy) clusterResources"
    by (simp add: wellFormed_defs clusterResources_def sample_defs)
  have e: "map_of (indexEntries clusterResources ClusterType) ''local_app''
      = Some (MCluster (sampleCluster ''local_app'' []))"
    "map_of (indexEntries clusterResources ClusterType) LocalAppClusterName
      = Some (MCluster (sampleCluster ''local_app'' []))"
    by (simp_all add: clusterResources_def sample_defs)
  from unmatched_cluster_untouched [of "upstreamConfig ServiceKindConnectProxy" "''local_app''"
      sampleExtension clusterResources]
    unmatched_cluster_untouched [of "downstreamConfig ServiceKindConnectProxy" LocalAppClusterName
      sampleExtension clusterResources]
    u d wu wd e
  show ?thesis by simp
qed

section \<open>Error aggregation\<close>

lemma errorMentions_refl: "errorMentions e e"
  by (cases e) simp_all

lemma aggregate_None_iff: "aggregate es = None \<longleftrightarrow> es = []"
  by (simp add: aggregate_def)

lemma aggregate_mentions:
  assumes "w \<in> set es" and "errorMentions w e"
  shows "\<exists>a. aggregate es = Some a \<and> errorMentions a e"
proof -
  from assms(1) have "es \<noteq> []" by auto
  with assms show ?thesis by (auto simp: aggregate_def)
qed

lemma filterErrors_empty_iff:
  "filterErrors ext config f = [] \<longleftrightarrow> callError ext config (PatchFilterCall f) = None"
proof (cases "PatchFilter ext config f")
  case (fields newFilter ok err)
  then show ?thesis by (cases err) (simp_all add: filterErrors_def callError_def)
qed

lemma filterErrors_member:
  assumes "callError ext config (PatchFilterCall f) = Some e"
  shows "filterErrors ext config f = [Errorf ''error patching listener filter'' e]"
proof (cases "PatchFilter ext config f")
  case (fields newFilter ok err)
  with assms show ?thesis by (simp add: filterErrors_def callError_def)
qed

lemma concat_empty_iff: "concat (map g xs) = [] \<longleftrightarrow> (\<forall>x\<in>set xs. g x = [])"
  by (induction xs) auto

lemma entryErrors_empty_iff:
  "entryErrors ext config x = [] \<longleftrightarrow>
     list_all (\<lambda>kc. callError ext config (snd kc) = None) (entryCalls config x)
     \<and> (\<forall>t. snd x \<noteq> MOther t)"
proof -
  obtain k msg where x: "x = (k, msg)" by (cases x)
  show ?thesis
  proof (cases msg)
    case (MCluster c)
    obtain newCluster patched err where p: "PatchCluster ext config c = (newCluster, patched, err)"
      by (cases "PatchCluster ext config c") auto
    show ?thesis
      using x MCluster p
      by (cases err; cases "clusterOffered config k")
         (simp_all add: entryErrors_def entryCalls_def callError_def)
  next
    case (MListener l)
    have "entryErrors ext config x = [] \<longleftrightarrow>
        concat (map (filterErrors ext config) (listenerOffered config l)) = []"
      using x MListener
      by (cases "concat (map (filterErrors ext config) (listenerOffered config l)) = []")
         (simp_all add: entryErrors_def aggregate_def)
    then show ?thesis
      using x MListener
      by (simp add: concat_empty_iff filterErrors_empty_iff entryCalls_def list_all_iff)
  next
    case (MRoute r)
    obtain newRoute patched err where p: "PatchRoute ext config r = (newRoute, patched, err)"
      by (cases "PatchRoute ext config r") auto
    show ?thesis
      using x MRoute p
      by (cases err; cases "routeOffered config k")
         (simp_all add: entryErrors_def entryCalls_def callError_def)
  next
    case (MOther t)
    with x show ?thesis by (simp add: entryErrors_def)
  qed
qed

lemma entryErrors_mentions:
  assumes "kc \<in> set (entryCalls config x)" and "callError ext config (snd kc) = Some e"
  shows "\<exists>w\<in>set (entryErrors ext config x). errorMentions w e"
proof -
  obtain k msg where x: "x = (k, msg)" by (cases x)
  show ?thesis
  proof (cases msg)
    case (MCluster c)
    obtain newCluster patched err where p: "PatchCluster ext config c = (newCluster, patched, err)"
      by (cases "PatchCluster ext config c") auto
    from assms(1) x MCluster have o: "clusterOffered config k" and kc: "kc = (k, PatchClusterCall c)"
      by (cases "clusterOffered config k"; simp add: entryCalls_def)+
    from assms(2) kc p have "err = Some e" by (simp add: callError_def)
    with x MCluster p o have "entryErrors ext config x = [Errorf ''error patching cluster'' e]"
      by (simp add: entryErrors_def)
    then show ?thesis by (simp add: errorMentions_refl)
  next
    case (MListener l)
    from assms(1) x MListener obtain f where f: "f \<in> set (listenerOffered config l)"
      and kc: "kc = (k, PatchFilterCall f)"
      by (auto simp: entryCalls_def)
    from assms(2) kc have ce: "callError ext config (PatchFilterCall f) = Some e" by simp
    let ?es = "concat (map (filterErrors ext config) (listenerOffered config l))"
    have "Errorf ''error patching listener filter'' e \<in> set (filterErrors ext config f)"
      by (simp add: filterErrors_member [OF ce])
    with f have m: "Errorf ''error patching listener filter'' e \<in> set ?es"
      by (simp only: set_concat set_map) blast
    then have ne: "?es \<noteq> []" by (metis empty_iff list.set(1))
    with x MListener have "entryErrors ext config x = [Errorf ''error patching listener'' (MultiError ?es)]"
      by (simp add: entryErrors_def aggregate_def)
    moreover have "errorMentions (Errorf ''error patching listener'' (MultiError ?es)) e"
      using m by (auto simp: errorMentions_refl intro!: bexI [of _ "Errorf ''error patching listener filter'' e"])
    ultimately show ?thesis by simp
  next
    case (MRoute r)
    obtain newRoute patched err where p: "PatchRoute ext config r = (newRoute, patched, err)"
      by (cases "PatchRoute ext config r") auto
    from assms(1) x MRoute have o: "routeOffered config k" and kc: "kc = (k, PatchRouteCall r)"
      by (cases "routeOffered config k"; simp add: entryCalls_def)+
    from assms(2) kc p have "err = Some e" by (simp add: callError_def)
    with x MRoute p o have "entryErrors ext config x = [Errorf ''error patching route'' e]"
      by (simp add: entryErrors_def)
    then show ?thesis by (simp add: errorMentions_refl)
  next
    case (MOther t)
    with assms(1) x show ?thesis by (simp add: entryCalls_def)
  qed
qed

lemma entryErrors_unsupported:
  "snd x = MOther t \<Longrightarrow> UnsupportedType t \<in> set (entryErrors ext config x)"
  by (cases x) (simp add: entryErrors_def)

text \<open>
  On a well-formed resource set, for a configuration that the extension applies to,
  \<open>Extend\<close> returns, and the calls it makes are those for every entry of the three
  inner maps in turn, whatever the patch functions return. The aggregate error is nil
  exactly when no call of the run returned an error and no entry has an unsupported
  type. It mentions the error of every call that returned one and the
  unsupported-type error of every such entry.
\<close>

lemma Extend_aggregates_errors:
  assumes kind: "Kind config = ServiceKindTerminatingGateway \<or> Kind config = ServiceKindConnectProxy"
    and can: "CanApply ext config"
    and wf: "wellFormed config resources"
  shows "\<exists>resources' agg.
      Extend ext resources config =
        (Inr (resources', agg), concat (map (entryCalls config) (allEntries resources)))
    \<and> (agg = None \<longleftrightarrow>
         list_all (\<lambda>kc. callError ext config (snd kc) = None) (snd (Extend ext resources config))
         \<and> list_all (\<lambda>x. \<forall>t. snd x \<noteq> MOther t) (allEntries resources))
    \<and> (\<forall>kc\<in>set (snd (Extend ext resources config)). \<forall>e.
          callError ext config (snd kc) = Some e \<longrightarrow> (\<exists>a. agg = Some a \<and> errorMentions a e))
    \<and> (\<forall>x\<in>set (allEntries resources). \<forall>t.
          snd x = MOther t \<longrightarrow> (\<exists>a. agg = Some a \<and> errorMentions a (UnsupportedType t)))"
proof -
  let ?all = "allEntries resources"
  let ?errs = "concat (map (entryErrors ext config) ?all)"
  let ?trace = "concat (map (entryCalls config) ?all)"
  note eq = Extend_eq [OF kind can wf]
  have nil: "aggregate ?errs = None \<longleftrightarrow>
      list_all (\<lambda>kc. callError ext config (snd kc) = None) ?trace
      \<and> list_all (\<lambda>x. \<forall>t. snd x \<noteq> MOther t) ?all"
    by (auto simp: aggregate_None_iff concat_empty_iff entryErrors_empty_iff list_all_iff)
  have calls: "\<exists>a. aggregate ?errs = Some a \<and> errorMentions a e"
    if "kc \<in> set ?trace" and "callError ext config (snd kc) = Some e" for kc e
  proof -
    from that(1) obtain x where x: "x \<in> set ?all" "kc \<in> set (entryCalls config x)" by auto
    from entryErrors_mentions [OF x(2) that(2)] obtain w
      where w: "w \<in> set (entryErrors ext config x)" "errorMentions w e" by blast
    from w(1) x(1) have "w \<in> set ?errs" by auto
    from aggregate_mentions [OF this w(2)] show ?thesis .
  qed
  have other: "\<exists>a. aggregate ?errs = Some a \<and> errorMentions a (UnsupportedType t)"
    if "x \<in> set ?all" and "snd x = MOther t" for x t
  proof -
    from entryErrors_unsupported [OF that(2)] that(1)
    have "UnsupportedType t \<in> set ?errs" by auto
    from aggregate_mentions [OF this errorMentions_refl] show ?thesis .
  qed
  show ?thesis
    using nil calls other by (simp add: eq) blast
qed

text \<open>
  On the resource set with failures the aggregate mentions the three rejections and the
  unsupported type, and all six calls are made; on the one without, the aggregate is
  nil.
\<close>

lemma Extend_aggregates_errors_on_samples:
  "wellFormed (upstreamConfig ServiceKindConnectProxy) mixedResources
   \<and> (\<exists>resources' a.
        fst (Extend sampleExtension mixedResources (upstreamConfig ServiceKindConnectProxy))
          = Inr (resources', Some a)
        \<and> errorMentions a (ExtensionError ''filter rejected'')
        \<and> errorMentions a (ExtensionError ''route rejected'')
        \<and> errorMentions a (ExtensionError ''cluster rejected'')
        \<and> errorMentions a (UnsupportedType ''*envoy_endpoint_v3.ClusterLoadAssignment''))
   \<and> length (snd (Extend sampleExtension mixedResources (upstreamConfig ServiceKindConnectProxy))) = 6
   \<and> wellFormed (upstreamConfig ServiceKindConnectProxy) cleanResources
   \<and> (\<exists>resources'.
        fst (Extend sampleExtension cleanResources (upstreamConfig ServiceKindConnectProxy))
          = Inr (resources', None))"
proof -
  let ?cfg = "upstreamConfig ServiceKindConnectProxy"
  from Extend_aggregates_errors [OF sample_kind sample_can mixed_wellFormed]
  obtain resources' agg where
    run: "Extend sampleExtension mixedResources ?cfg =
        (Inr (resources', agg), concat (map (entryCalls ?cfg) (allEntries mixedResources)))"
    and nil0: "agg = None \<longleftrightarrow>
         list_all (\<lambda>kc. callError sampleExtension ?cfg (snd kc) = None)
           (snd (Extend sampleExtension mixedResources ?cfg))
         \<and> list_all (\<lambda>x. \<forall>t. snd x \<noteq> MOther t) (allEntries mixedResources)"
    and calls: "\<forall>kc\<in>set (snd (Extend sampleExtension mixedResources ?cfg)). \<forall>e.
        callError sampleExtension ?cfg (snd kc) = Some e \<longrightarrow> (\<exists>a. agg = Some a \<and> errorMentions a e)"
    and other: "\<forall>x\<in>set (allEntries mixedResources). \<forall>t.
        snd x = MOther t \<longrightarrow> (\<exists>a. agg = Some a \<and> errorMentions a (UnsupportedType t))"
    by (elim exE conjE) (rule that)
  from calls have m: "\<exists>a. agg = Some a
      \<and> errorMentions a (ExtensionError ''filter rejected'')
      \<and> errorMentions a (ExtensionError ''route rejected'')
      \<and> errorMentions a (ExtensionError ''cluster rejected'')"
    unfolding mixed_trace
    by (auto simp: callError_def sampleExtension_def sampleFilter_def sampleRoute_def sampleCluster_def)
  from other have o: "\<exists>a. agg = Some a
      \<and> errorMentions a (UnsupportedType ''*envoy_endpoint_v3.ClusterLoadAssignment'')"
    by (simp add: allEntries_def mixedResources_def sample_defs)
  from run have f: "fst (Extend sampleExtension mixedResources ?cfg) = Inr (resources', agg)"
    by simp
  from Extend_aggregates_errors [OF sample_kind sample_can clean_wellFormed]
  obtain resources'' agg' where
    run': "Extend sampleExtension cleanResources ?cfg =
        (Inr (resources'', agg'), concat (map (entryCalls ?cfg) (allEntries cleanResources)))"
    and nil: "agg' = None \<longleftrightarrow>
         list_all (\<lambda>kc. callError sampleExtension ?cfg (snd kc) = None)
           (snd (Extend sampleExtension cleanResources ?cfg))
         \<and> list_all (\<lambda>x. \<forall>t. snd x \<noteq> MOther t) (allEntries cleanResources)"
    by (elim exE conjE) (rule that)
  from nil have "agg' = None"
    unfolding clean_trace
    by (simp add: callError_def sampleExtension_def sampleFilter_def sampleRoute_def sampleCluster_def
        allEntries_def cleanResources_def sample_defs)
  with run' have c: "\<exists>resources'.
      fst (Extend sampleExtension cleanResources ?cfg) = Inr (resources', None)" by simp
  from m o f c mixed_wellFormed clean_wellFormed show ?thesis
    by (auto simp: mixed_trace)
qed

text \<open>
  C2. The claim that no failure ever aborts the iteration, so that every remaining
  resource is processed after an error is recorded, does not hold of the code: with a
  listener whose filter \<open>bad\<close> is rejected, then an outbound listener with a chain
  without match clause, then a route and a cluster, the run records the error of the
  rejected filter and ends in the nil pointer dereference of \<open>filterChainTProxyMatch\<close>.
  It returns neither the resource set nor the aggregate error, and the route and the
  cluster are never offered.
\<close>

theorem recorded_error_then_panic:
  "callError sampleExtension (upstreamConfig ServiceKindConnectProxy)
       (PatchFilterCall (sampleFilter ''bad'')) = Some (ExtensionError ''filter rejected'')
   \<and> Extend sampleExtension abortResources (upstreamConfig ServiceKindConnectProxy)
       = (Inl NilPointerDereference,
          [(''db:127.0.0.1:9191'', PatchFilterCall (sampleFilter ''bad'')),
           (''db:127.0.0.1:9191'', PatchFilterCall (sampleFilter ''tcp''))])"
  by (simp add: sample_defs callError_def abortResources_def upstreamListener_def
      outboundListener_def unmatchedChain_def sampleRoute_def)

section \<open>Failed and successful patches in one run\<close>

lemma entry_of_call:
  assumes "kc \<in> set (concat (map (entryCalls config) xs))"
  shows "\<exists>x\<in>set xs. kc \<in> set (entryCalls config x)"
  using assms by auto

lemma cluster_call_entry:
  assumes "(k, PatchClusterCall c) \<in> set (entryCalls config x)"
  shows "x = (k, MCluster c) \<and> clusterOffered config k"
proof -
  obtain k' msg where x: "x = (k', msg)" by (cases x)
  show ?thesis
    using assms x
    by (cases msg; cases "clusterOffered config k'"; cases "routeOffered config k'")
       (auto simp: entryCalls_def)
qed

lemma route_call_entry:
  assumes "(k, PatchRouteCall r) \<in> set (entryCalls config x)"
  shows "x = (k, MRoute r) \<and> routeOffered config k"
proof -
  obtain k' msg where x: "x = (k', msg)" by (cases x)
  show ?thesis
    using assms x
    by (cases msg; cases "clusterOffered config k'"; cases "routeOffered config k'")
       (auto simp: entryCalls_def)
qed

lemma wellFormed_index:
  assumes "wellFormed config resources" and "x \<in> set (allEntries resources)"
  shows "(x \<in> set (indexEntries resources ListenerType) \<and> tagOk ListenerType (snd x))
       \<or> (x \<in> set (indexEntries resources RouteType) \<and> tagOk RouteType (snd x))
       \<or> (x \<in> set (indexEntries resources ClusterType) \<and> tagOk ClusterType (snd x))"
  using assms by (auto simp: wellFormed_def indexOk_def allEntries_def list_all_iff)

lemma wellFormed_distinct:
  assumes "wellFormed config resources"
  shows "distinct (map fst (indexEntries resources ListenerType))"
    "distinct (map fst (indexEntries resources RouteType))"
    "distinct (map fst (indexEntries resources ClusterType))"
  using assms by (simp_all add: wellFormed_def indexOk_def)

lemma cluster_call_lookup:
  assumes wf: "wellFormed config resources"
    and call: "(k, PatchClusterCall c) \<in> set (concat (map (entryCalls config) (allEntries resources)))"
  shows "map_of (indexEntries resources ClusterType) k = Some (MCluster c) \<and> clusterOffered config k"
proof -
  from entry_of_call [OF call] obtain x where x: "x \<in> set (allEntries resources)"
    "(k, PatchClusterCall c) \<in> set (entryCalls config x)" by blast
  from cluster_call_entry [OF x(2)] have e: "x = (k, MCluster c)" and o: "clusterOffered config k"
    by simp_all
  from wellFormed_index [OF wf x(1)] e have "(k, MCluster c) \<in> set (indexEntries resources ClusterType)"
    by (simp add: tagOk_def)
  with wellFormed_distinct(3) [OF wf] o show ?thesis by simp
qed

lemma route_call_lookup:
  assumes wf: "wellFormed config resources"
    and call: "(k, PatchRouteCall r) \<in> set (concat (map (entryCalls config) (allEntries resources)))"
  shows "map_of (indexEntries resources RouteType) k = Some (MRoute r) \<and> routeOffered config k"
proof -
  from entry_of_call [OF call] obtain x where x: "x \<in> set (allEntries resources)"
    "(k, PatchRouteCall r) \<in> set (entryCalls config x)" by blast
  from route_call_entry [OF x(2)] have e: "x = (k, MRoute r)" and o: "routeOffered config k"
    by simp_all
  from wellFormed_index [OF wf x(1)] e have "(k, MRoute r) \<in> set (indexEntries resources RouteType)"
    by (simp add: tagOk_def)
  with wellFormed_distinct(2) [OF wf] o show ?thesis by simp
qed

lemma patchedListener_nth:
  assumes "i < length (FilterChains l)" and "chainCandidate config l (FilterChains l ! i)"
    and "j < length (Filters (FilterChains l ! i))"
  shows "Filters (FilterChains (patchedListener ext config l) ! i) ! j
      = patchedFilter ext config (Filters (FilterChains l ! i) ! j)"
  using assms by (simp add: patchedListener_def rewriteChains_def)

lemma offered_member:
  assumes "i < length (FilterChains l)" and "chainCandidate config l (FilterChains l ! i)"
    and "j < length (Filters (FilterChains l ! i))"
  shows "Filters (FilterChains l ! i) ! j \<in> set (listenerOffered config l)"
proof -
  from assms(1,2) have "FilterChains l ! i \<in> set (filter (chainCandidate config l) (FilterChains l))"
    by simp
  moreover from assms(3) have "Filters (FilterChains l ! i) ! j \<in> set (Filters (FilterChains l ! i))"
    by simp
  ultimately show ?thesis
    unfolding listenerOffered_def offeredFilters_def set_concat set_map by blast
qed

text \<open>
  C1. On a well-formed resource set, for a configuration that the extension applies
  to, \<open>Extend\<close> returns a resource set and an aggregate error such that: for every call of
  \<open>PatchCluster\<close> of the run on a cluster found under the key \<open>k\<close>, if the call returns an
  error the cluster index holds the original cluster under \<open>k\<close> and the aggregate
  mentions the error, and if it returns \<open>changed = true\<close> and no error the index holds the
  returned cluster; likewise for \<open>PatchRoute\<close>; and every filter of a candidate chain of a
  listener of the listener index is offered to \<open>PatchFilter\<close>, the listener in the result
  has the original filter at its position when the call returns an error, which the
  aggregate mentions, and the returned filter when it returns \<open>changed = true\<close> and no
  error.
\<close>

theorem patch_error_keeps_original:
  assumes kind: "Kind config = ServiceKindTerminatingGateway \<or> Kind config = ServiceKindConnectProxy"
    and can: "CanApply ext config"
    and wf: "wellFormed config resources"
  shows "\<exists>resources' agg. fst (Extend ext resources config) = Inr (resources', agg)
    \<and> (\<forall>k c newCluster patched e.
          (k, PatchClusterCall c) \<in> set (snd (Extend ext resources config)) \<longrightarrow>
          (PatchCluster ext config c = (newCluster, patched, Some e) \<longrightarrow>
             map_of (indexEntries resources' ClusterType) k = Some (MCluster c)
             \<and> (\<exists>a. agg = Some a \<and> errorMentions a e))
          \<and> (PatchCluster ext config c = (newCluster, True, None) \<longrightarrow>
             map_of (indexEntries resources' ClusterType) k = Some (MCluster newCluster)))
    \<and> (\<forall>k r newRoute patched e.
          (k, PatchRouteCall r) \<in> set (snd (Extend ext resources config)) \<longrightarrow>
          (PatchRoute ext config r = (newRoute, patched, Some e) \<longrightarrow>
             map_of (indexEntries resources' RouteType) k = Some (MRoute r)
             \<and> (\<exists>a. agg = Some a \<and> errorMentions a e))
          \<and> (PatchRoute ext config r = (newRoute, True, None) \<longrightarrow>
             map_of (indexEntries resources' RouteType) k = Some (MRoute newRoute)))
    \<and> (\<forall>k l i j newFilter ok e.
          map_of (indexEntries resources ListenerType) k = Some (MListener l)
          \<and> i < length (FilterChains l) \<and> chainCandidate config l (FilterChains l ! i)
          \<and> j < length (Filters (FilterChains l ! i)) \<longrightarrow>
          (\<exists>l'. map_of (indexEntries resources' ListenerType) k = Some (MListener l')
             \<and> (k, PatchFilterCall (Filters (FilterChains l ! i) ! j))
                  \<in> set (snd (Extend ext resources config))
             \<and> (PatchFilter ext config (Filters (FilterChains l ! i) ! j) = (newFilter, ok, Some e) \<longrightarrow>
                  Filters (FilterChains l' ! i) ! j = Filters (FilterChains l ! i) ! j
                  \<and> (\<exists>a. agg = Some a \<and> errorMentions a e))
             \<and> (PatchFilter ext config (Filters (FilterChains l ! i) ! j) = (newFilter, True, None) \<longrightarrow>
                  Filters (FilterChains l' ! i) ! j = newFilter)))"
proof -
  let ?all = "allEntries resources"
  let ?errs = "concat (map (entryErrors ext config) ?all)"
  let ?trace = "concat (map (entryCalls config) ?all)"
  let ?res = "extendedResources ext config resources"
  note eq = Extend_eq [OF kind can wf]
  have mention: "\<exists>a. aggregate ?errs = Some a \<and> errorMentions a e"
    if "kc \<in> set ?trace" and "callError ext config (snd kc) = Some e" for kc e
  proof -
    from entry_of_call [OF that(1)] obtain x where x: "x \<in> set ?all" "kc \<in> set (entryCalls config x)"
      by blast
    from entryErrors_mentions [OF x(2) that(2)] obtain w
      where w: "w \<in> set (entryErrors ext config x)" "errorMentions w e" by blast
    from w(1) x(1) have "w \<in> set ?errs" by auto
    from aggregate_mentions [OF this w(2)] show ?thesis .
  qed
  have cluster_err: "map_of (indexEntries ?res ClusterType) k = Some (MCluster c)
      \<and> (\<exists>a. aggregate ?errs = Some a \<and> errorMentions a e)"
    if call: "(k, PatchClusterCall c) \<in> set ?trace"
      and p: "PatchCluster ext config c = (newCluster, patched, Some e)"
    for k c newCluster patched e
  proof -
    from cluster_call_lookup [OF wf call] p
    have "map_of (indexEntries ?res ClusterType) k = Some (MCluster c)"
      by (simp add: indexEntries_extended map_of_extendedEntries entryResult_def)
    moreover from p have "callError ext config (snd (k, PatchClusterCall c)) = Some e"
      by (simp add: callError_def)
    from mention [OF call this] have "\<exists>a. aggregate ?errs = Some a \<and> errorMentions a e" .
    ultimately show ?thesis by simp
  qed
  have cluster_ok: "map_of (indexEntries ?res ClusterType) k = Some (MCluster newCluster)"
    if call: "(k, PatchClusterCall c) \<in> set ?trace"
      and p: "PatchCluster ext config c = (newCluster, True, None)"
    for k c newCluster
    using cluster_call_lookup [OF wf call] p
    by (simp add: indexEntries_extended map_of_extendedEntries entryResult_def)
  have route_err: "map_of (indexEntries ?res RouteType) k = Some (MRoute r)
      \<and> (\<exists>a. aggregate ?errs = Some a \<and> errorMentions a e)"
    if call: "(k, PatchRouteCall r) \<in> set ?trace"
      and p: "PatchRoute ext config r = (newRoute, patched, Some e)"
    for k r newRoute patched e
  proof -
    from route_call_lookup [OF wf call] p
    have "map_of (indexEntries ?res RouteType) k = Some (MRoute r)"
      by (simp add: indexEntries_extended map_of_extendedEntries entryResult_def)
    moreover from p have "callError ext config (snd (k, PatchRouteCall r)) = Some e"
      by (simp add: callError_def)
    from mention [OF call this] have "\<exists>a. aggregate ?errs = Some a \<and> errorMentions a e" .
    ultimately show ?thesis by simp
  qed
  have route_ok: "map_of (indexEntries ?res RouteType) k = Some (MRoute newRoute)"
    if call: "(k, PatchRouteCall r) \<in> set ?trace"
      and p: "PatchRoute ext config r = (newRoute, True, None)"
    for k r newRoute
    using route_call_lookup [OF wf call] p
    by (simp add: indexEntries_extended map_of_extendedEntries entryResult_def)
  have listener: "\<exists>l'. map_of (indexEntries ?res ListenerType) k = Some (MListener l')
      \<and> (k, PatchFilterCall (Filters (FilterChains l ! i) ! j)) \<in> set ?trace
      \<and> (PatchFilter ext config (Filters (FilterChains l ! i) ! j) = (newFilter, ok, Some e) \<longrightarrow>
            Filters (FilterChains l' ! i) ! j = Filters (FilterChains l ! i) ! j
            \<and> (\<exists>a. aggregate ?errs = Some a \<and> errorMentions a e))
      \<and> (PatchFilter ext config (Filters (FilterChains l ! i) ! j) = (newFilter, True, None) \<longrightarrow>
            Filters (FilterChains l' ! i) ! j = newFilter)"
    if look: "map_of (indexEntries resources ListenerType) k = Some (MListener l)"
      and i: "i < length (FilterChains l)" and cand: "chainCandidate config l (FilterChains l ! i)"
      and j: "j < length (Filters (FilterChains l ! i))"
    for k l i j newFilter ok e
  proof -
    let ?f = "Filters (FilterChains l ! i) ! j"
    from look have res: "map_of (indexEntries ?res ListenerType) k
        = Some (MListener (patchedListener ext config l))"
      by (simp add: indexEntries_extended map_of_extendedEntries entryResult_def)
    from look have "(k, MListener l) \<in> set (indexEntries resources ListenerType)"
      by (rule map_of_SomeD)
    then have mem: "(k, MListener l) \<in> set ?all" by (simp add: allEntries_def)
    have "(k, PatchFilterCall ?f) \<in> set (entryCalls config (k, MListener l))"
      using offered_member [OF i cand j] by (simp add: entryCalls_def)
    with mem have call: "(k, PatchFilterCall ?f) \<in> set ?trace"
      unfolding set_concat set_map by blast
    note nth = patchedListener_nth [OF i cand j, of ext]
    have err: "Filters (FilterChains (patchedListener ext config l) ! i) ! j = ?f
        \<and> (\<exists>a. aggregate ?errs = Some a \<and> errorMentions a e)"
      if p: "PatchFilter ext config ?f = (newFilter, ok, Some e)"
    proof -
      from p have "callError ext config (snd (k, PatchFilterCall ?f)) = Some e"
        by (simp add: callError_def)
      from mention [OF call this] p show ?thesis
        by (simp add: nth patchedFilter_def)
    qed
    have good: "Filters (FilterChains (patchedListener ext config l) ! i) ! j = newFilter"
      if p: "PatchFilter ext config ?f = (newFilter, True, None)"
      using p by (simp add: nth patchedFilter_def)
    from res call err good show ?thesis by blast
  qed
  have f: "fst (Extend ext resources config) = Inr (?res, aggregate ?errs)"
    and s: "snd (Extend ext resources config) = ?trace"
    by (simp_all add: eq)
  show ?thesis
  proof (intro exI conjI)
    show "fst (Extend ext resources config) = Inr (?res, aggregate ?errs)" by (fact f)
    show "\<forall>k c newCluster patched e.
          (k, PatchClusterCall c) \<in> set (snd (Extend ext resources config)) \<longrightarrow>
          (PatchCluster ext config c = (newCluster, patched, Some e) \<longrightarrow>
             map_of (indexEntries ?res ClusterType) k = Some (MCluster c)
             \<and> (\<exists>a. aggregate ?errs = Some a \<and> errorMentions a e))
          \<and> (PatchCluster ext config c = (newCluster, True, None) \<longrightarrow>
             map_of (indexEntries ?res ClusterType) k = Some (MCluster newCluster))"
      unfolding s using cluster_err cluster_ok by blast
    show "\<forall>k r newRoute patched e.
          (k, PatchRouteCall r) \<in> set (snd (Extend ext resources config)) \<longrightarrow>
          (PatchRoute ext config r = (newRoute, patched, Some e) \<longrightarrow>
             map_of (indexEntries ?res RouteType) k = Some (MRoute r)
             \<and> (\<exists>a. aggregate ?errs = Some a \<and> errorMentions a e))
          \<and> (PatchRoute ext config r = (newRoute, True, None) \<longrightarrow>
             map_of (indexEntries ?res RouteType) k = Some (MRoute newRoute))"
      unfolding s using route_err route_ok by blast
    show "\<forall>k l i j newFilter ok e.
          map_of (indexEntries resources ListenerType) k = Some (MListener l)
          \<and> i < length (FilterChains l) \<and> chainCandidate config l (FilterChains l ! i)
          \<and> j < length (Filters (FilterChains l ! i)) \<longrightarrow>
          (\<exists>l'. map_of (indexEntries ?res ListenerType) k = Some (MListener l')
             \<and> (k, PatchFilterCall (Filters (FilterChains l ! i) ! j))
                  \<in> set (snd (Extend ext resources config))
             \<and> (PatchFilter ext config (Filters (FilterChains l ! i) ! j) = (newFilter, ok, Some e) \<longrightarrow>
                  Filters (FilterChains l' ! i) ! j = Filters (FilterChains l ! i) ! j
                  \<and> (\<exists>a. aggregate ?errs = Some a \<and> errorMentions a e))
             \<and> (PatchFilter ext config (Filters (FilterChains l ! i) ! j) = (newFilter, True, None) \<longrightarrow>
                  Filters (FilterChains l' ! i) ! j = newFilter))"
      unfolding s using listener by blast
  qed
qed

text \<open>
  On the resource set with failures, the rejected cluster, route and filter are kept,
  the others are replaced, and the aggregate mentions each rejection.
\<close>

theorem patch_error_keeps_original_witness:
  "wellFormed (upstreamConfig ServiceKindConnectProxy) mixedResources
   \<and> (\<exists>resources' a l'.
        fst (Extend sampleExtension mixedResources (upstreamConfig ServiceKindConnectProxy))
          = Inr (resources', Some a)
        \<and> map_of (indexEntries resources' ClusterType) ''db.default.dc1.internal''
            = Some (MCluster (sampleCluster ''db.default.dc1.internal'' ''bad''))
        \<and> map_of (indexEntries resources' ClusterType) ''db.default.dc2.internal''
            = Some (MCluster (sampleCluster ''db.default.dc2.internal'' ''patched''))
        \<and> errorMentions a (ExtensionError ''cluster rejected'')
        \<and> map_of (indexEntries resources' RouteType) ''db.default.dc2.internal''
            = Some (MRoute (sampleRoute ''bad''))
        \<and> map_of (indexEntries resources' RouteType) ''db''
            = Some (MRoute ((sampleRoute ''db'')
                \<lparr>VirtualHosts := [\<lparr>VirtualHost_Name = ''ext'', Routes = []\<rparr>]\<rparr>))
        \<and> errorMentions a (ExtensionError ''route rejected'')
        \<and> map_of (indexEntries resources' ListenerType) ''db:127.0.0.1:9191'' = Some (MListener l')
        \<and> Filters (FilterChains l' ! 0) ! 0 = sampleFilter ''bad''
        \<and> Filters (FilterChains l' ! 0) ! 1 = (sampleFilter ''tcp'')\<lparr>Filter_TypedConfig := Some ''patched''\<rparr>
        \<and> errorMentions a (ExtensionError ''filter rejected''))"
proof -
  let ?cfg = "upstreamConfig ServiceKindConnectProxy"
  let ?run = "Extend sampleExtension mixedResources ?cfg"
  from patch_error_keeps_original [OF sample_kind sample_can mixed_wellFormed]
  obtain resources' agg where
    run: "fst ?run = Inr (resources', agg)"
    and clusters: "\<forall>k c newCluster patched e.
          (k, PatchClusterCall c) \<in> set (snd ?run) \<longrightarrow>
          (PatchCluster sampleExtension ?cfg c = (newCluster, patched, Some e) \<longrightarrow>
             map_of (indexEntries resources' ClusterType) k = Some (MCluster c)
             \<and> (\<exists>a. agg = Some a \<and> errorMentions a e))
          \<and> (PatchCluster sampleExtension ?cfg c = (newCluster, True, None) \<longrightarrow>
             map_of (indexEntries resources' ClusterType) k = Some (MCluster newCluster))"
    and routes: "\<forall>k r newRoute patched e.
          (k, PatchRouteCall r) \<in> set (snd ?run) \<longrightarrow>
          (PatchRoute sampleExtension ?cfg r = (newRoute, patched, Some e) \<longrightarrow>
             map_of (indexEntries resources' RouteType) k = Some (MRoute r)
             \<and> (\<exists>a. agg = Some a \<and> errorMentions a e))
          \<and> (PatchRoute sampleExtension ?cfg r = (newRoute, True, None) \<longrightarrow>
             map_of (indexEntries resources' RouteType) k = Some (MRoute newRoute))"
    and filters: "\<forall>k l i j newFilter ok e.
          map_of (indexEntries mixedResources ListenerType) k = Some (MListener l)
          \<and> i < length (FilterChains l) \<and> chainCandidate ?cfg l (FilterChains l ! i)
          \<and> j < length (Filters (FilterChains l ! i)) \<longrightarrow>
          (\<exists>l'. map_of (indexEntries resources' ListenerType) k = Some (MListener l')
             \<and> (k, PatchFilterCall (Filters (FilterChains l ! i) ! j)) \<in> set (snd ?run)
             \<and> (PatchFilter sampleExtension ?cfg (Filters (FilterChains l ! i) ! j) = (newFilter, ok, Some e) \<longrightarrow>
                  Filters (FilterChains l' ! i) ! j = Filters (FilterChains l ! i) ! j
                  \<and> (\<exists>a. agg = Some a \<and> errorMentions a e))
             \<and> (PatchFilter sampleExtension ?cfg (Filters (FilterChains l ! i) ! j) = (newFilter, True, None) \<longrightarrow>
                  Filters (FilterChains l' ! i) ! j = newFilter))"
    by (elim exE conjE) (rule that)
  note clusters' = clusters [unfolded mixed_trace]
  note routes' = routes [unfolded mixed_trace]
  let ?c1 = "sampleCluster ''db.default.dc1.internal'' ''bad''"
  let ?c2 = "sampleCluster ''db.default.dc2.internal'' []"
  let ?c2' = "sampleCluster ''db.default.dc2.internal'' ''patched''"
  have p_c1: "PatchCluster sampleExtension ?cfg ?c1 = (?c1, False, Some (ExtensionError ''cluster rejected''))"
    and p_c2: "PatchCluster sampleExtension ?cfg ?c2 = (?c2', True, None)"
    by (simp_all add: sampleExtension_def sampleCluster_def)
  have c1: "map_of (indexEntries resources' ClusterType) ''db.default.dc1.internal'' = Some (MCluster ?c1)
      \<and> (\<exists>a. agg = Some a \<and> errorMentions a (ExtensionError ''cluster rejected''))"
    using clusters' [rule_format, of "''db.default.dc1.internal''" ?c1 ?c1 False
        "ExtensionError ''cluster rejected''", THEN conjunct1] p_c1
    by simp
  have c2: "map_of (indexEntries resources' ClusterType) ''db.default.dc2.internal''
      = Some (MCluster ?c2')"
    using clusters' [rule_format, of "''db.default.dc2.internal''" ?c2 ?c2' False undefined,
        THEN conjunct2] p_c2
    by simp
  let ?r1 = "sampleRoute ''bad''"
  let ?r2 = "sampleRoute ''db''"
  let ?r2' = "(sampleRoute ''db'')\<lparr>VirtualHosts := [\<lparr>VirtualHost_Name = ''ext'', Routes = []\<rparr>]\<rparr>"
  have p_r1: "PatchRoute sampleExtension ?cfg ?r1 = (?r1, False, Some (ExtensionError ''route rejected''))"
    and p_r2: "PatchRoute sampleExtension ?cfg ?r2 = (?r2', True, None)"
    by (simp_all add: sampleExtension_def sampleRoute_def)
  have r1: "map_of (indexEntries resources' RouteType) ''db.default.dc2.internal'' = Some (MRoute ?r1)
      \<and> (\<exists>a. agg = Some a \<and> errorMentions a (ExtensionError ''route rejected''))"
    using routes' [rule_format, of "''db.default.dc2.internal''" ?r1 ?r1 False
        "ExtensionError ''route rejected''", THEN conjunct1] p_r1
    by simp
  have r2: "map_of (indexEntries resources' RouteType) ''db'' = Some (MRoute ?r2')"
    using routes' [rule_format, of "''db''" ?r2 ?r2' False undefined, THEN conjunct2] p_r2
    by simp
  have look: "map_of (indexEntries mixedResources ListenerType) ''db:127.0.0.1:9191''
      = Some (MListener upstreamListener)"
    by (simp add: mixedResources_def sample_defs)
  have chain: "FilterChains upstreamListener ! 0
      = \<lparr>FilterChainMatch = None, Filters = [sampleFilter ''bad'', sampleFilter ''tcp'']\<rparr>"
    "length (FilterChains upstreamListener) = 1"
    by (simp_all add: upstreamListener_def)
  have cand: "chainCandidate ?cfg upstreamListener
      \<lparr>FilterChainMatch = None, Filters = [sampleFilter ''bad'', sampleFilter ''tcp'']\<rparr>"
    by (simp add: chainCandidate_def upstreamListener_def sample_defs)
  let ?f1' = "(sampleFilter ''tcp'')\<lparr>Filter_TypedConfig := Some ''patched''\<rparr>"
  have p_f0: "PatchFilter sampleExtension ?cfg (sampleFilter ''bad'')
      = (sampleFilter ''bad'', False, Some (ExtensionError ''filter rejected''))"
    and p_f1: "PatchFilter sampleExtension ?cfg (sampleFilter ''tcp'') = (?f1', True, None)"
    by (simp_all add: sampleExtension_def sampleFilter_def)
  have f0: "\<exists>l'. map_of (indexEntries resources' ListenerType) ''db:127.0.0.1:9191'' = Some (MListener l')
      \<and> Filters (FilterChains l' ! 0) ! 0 = sampleFilter ''bad''
      \<and> (\<exists>a. agg = Some a \<and> errorMentions a (ExtensionError ''filter rejected''))"
    using filters [rule_format, of "''db:127.0.0.1:9191''" upstreamListener 0 0
        "sampleFilter ''bad''" False "ExtensionError ''filter rejected''"] look cand p_f0
    by (simp add: chain) blast
  have f1: "\<exists>l'. map_of (indexEntries resources' ListenerType) ''db:127.0.0.1:9191'' = Some (MListener l')
      \<and> Filters (FilterChains l' ! 0) ! 1 = ?f1'"
    using filters [rule_format, of "''db:127.0.0.1:9191''" upstreamListener 0 1
        ?f1' False undefined] look cand p_f1
    by (simp add: chain) blast
  from c1 obtain a where a: "agg = Some a" by blast
  from f0 f1 obtain l' where
    l: "map_of (indexEntries resources' ListenerType) ''db:127.0.0.1:9191'' = Some (MListener l')"
      "Filters (FilterChains l' ! 0) ! 0 = sampleFilter ''bad''"
      "Filters (FilterChains l' ! 0) ! 1 = ?f1'"
    by auto
  from run a c1 c2 r1 r2 f0 l mixed_wellFormed show ?thesis
    by (intro conjI exI [of _ resources'] exI [of _ a] exI [of _ l']) simp_all
qed

end
